(* ===== verification/Prelude.thy ===== *)
theory Prelude
  imports Complex_Main
begin

text \<open>
  Shared material of the Dashboard development: the fact collections the component
  theories fill, the names used for results that may throw, and generic lemmas on
  lists and maps that the proofs about \<^verbatim>\<open>foods.map\<close>, \<^verbatim>\<open>foods.filter\<close> and object
  spread rest on. Nothing here mentions the program.
\<close>

section \<open>Fact collections\<close>

named_theorems js_defs "definitions of the JavaScript value operations"
named_theorems handler_defs "definitions of the Dashboard handlers"
named_theorems commit_simps "how committed effects act on the fields of the state"

section \<open>Results that may throw\<close>

text \<open>
  A computation that may throw is a value of a sum type: \<open>Inl e\<close> is the exception
  \<open>e\<close>, \<open>Inr v\<close> the value \<open>v\<close>. The two abbreviations name the two cases as the
  source language does.
\<close>

type_synonym ('e, 'a) result = "'e + 'a"

abbreviation Raise :: "'e \<Rightarrow> ('e, 'a) result" where
  "Raise \<equiv> Inl"

abbreviation Return :: "'a \<Rightarrow> ('e, 'a) result" where
  "Return \<equiv> Inr"

text \<open>
  \<open>array_map f xs\<close> and \<open>array_filter p xs\<close> apply a callback that may throw to
  the elements of a list from left to right and stop at the first exception, as the
  array methods \<^verbatim>\<open>map\<close> and \<^verbatim>\<open>filter\<close> of JavaScript do with their callback.
\<close>

fun array_map :: "('a \<Rightarrow> ('e, 'b) result) \<Rightarrow> 'a list \<Rightarrow> ('e, 'b list) result" where
  "array_map f [] = Return []"
| "array_map f (x # xs) =
     (case f x of
        Inl e \<Rightarrow> Raise e
      | Inr y \<Rightarrow> (case array_map f xs of Inl e \<Rightarrow> Raise e | Inr ys \<Rightarrow> Return (y # ys)))"

fun array_filter :: "('a \<Rightarrow> ('e, bool) result) \<Rightarrow> 'a list \<Rightarrow> ('e, 'a list) result" where
  "array_filter p [] = Return []"
| "array_filter p (x # xs) =
     (case p x of
        Inl e \<Rightarrow> Raise e
      | Inr b \<Rightarrow>
          (case array_filter p xs of
             Inl e \<Rightarrow> Raise e
           | Inr ys \<Rightarrow> Return (if b then x # ys else ys)))"

lemma array_map_total:
  "(\<And>x. x \<in> set xs \<Longrightarrow> f x = Return (g x)) \<Longrightarrow> array_map f xs = Return (map g xs)"
  by (induction xs) simp_all

lemma array_map_Return_length:
  "array_map f xs = Return ys \<Longrightarrow> length ys = length xs"
  by (induction xs arbitrary: ys) (auto split: sum.splits)

lemma array_map_Return_all:
  "array_map f xs = Return ys \<Longrightarrow> x \<in> set xs \<Longrightarrow> \<exists>y. f x = Return y"
  by (induction xs arbitrary: ys) (auto split: sum.splits)

lemma array_map_Return_map:
  "array_map f xs = Return ys \<Longrightarrow> ys = map (\<lambda>x. projr (f x)) xs"
  by (induction xs arbitrary: ys) (auto split: sum.splits)

lemma array_map_Raise_mem:
  "array_map f xs = Raise e \<Longrightarrow> \<exists>x \<in> set xs. f x = Raise e"
  by (induction xs) (auto split: sum.splits)

lemma array_map_isl:
  "isl (array_map f xs) \<longleftrightarrow> (\<exists>x \<in> set xs. isl (f x))"
  by (induction xs) (auto split: sum.splits)

lemma array_map_uniform_error:
  assumes "x \<in> set xs" and "f x = Raise e"
    and uniform: "\<And>y e'. y \<in> set xs \<Longrightarrow> f y = Raise e' \<Longrightarrow> e' = e"
  shows "array_map f xs = Raise e"
proof -
  from assms(2) have "isl (f x)" by simp
  with assms(1) have "isl (array_map f xs)"
    unfolding array_map_isl by blast
  then obtain e' where e': "array_map f xs = Raise e'"
    by (cases "array_map f xs") auto
  then obtain y where "y \<in> set xs" and "f y = Raise e'"
    by (blast dest: array_map_Raise_mem)
  then have "e' = e" by (rule uniform)
  with e' show ?thesis by simp
qed

lemma array_filter_total:
  "(\<And>x. x \<in> set xs \<Longrightarrow> p x = Return (q x)) \<Longrightarrow> array_filter p xs = Return (filter q xs)"
  by (induction xs) simp_all

lemma array_filter_Return_all:
  "array_filter p xs = Return ys \<Longrightarrow> x \<in> set xs \<Longrightarrow> \<exists>b. p x = Return b"
  by (induction xs arbitrary: ys) (auto split: sum.splits)

lemma array_filter_Return_filter:
  "array_filter p xs = Return ys \<Longrightarrow> ys = filter (\<lambda>x. projr (p x)) xs"
  by (induction xs arbitrary: ys) (auto split: sum.splits)

lemma array_filter_Raise_mem:
  "array_filter p xs = Raise e \<Longrightarrow> \<exists>x \<in> set xs. p x = Raise e"
  by (induction xs) (auto split: sum.splits)

lemma array_filter_isl:
  "isl (array_filter p xs) \<longleftrightarrow> (\<exists>x \<in> set xs. isl (p x))"
  by (induction xs) (auto split: sum.splits)

lemma array_filter_uniform_error:
  assumes "x \<in> set xs" and "p x = Raise e"
    and uniform: "\<And>y e'. y \<in> set xs \<Longrightarrow> p y = Raise e' \<Longrightarrow> e' = e"
  shows "array_filter p xs = Raise e"
proof -
  from assms(2) have "isl (p x)" by simp
  with assms(1) have "isl (array_filter p xs)"
    unfolding array_filter_isl by blast
  then obtain e' where e': "array_filter p xs = Raise e'"
    by (cases "array_filter p xs") auto
  then obtain y where "y \<in> set xs" and "p y = Raise e'"
    by (blast dest: array_filter_Raise_mem)
  then have "e' = e" by (rule uniform)
  with e' show ?thesis by simp
qed

section \<open>Lists keyed by a projection\<close>

text \<open>
  The collection is a list whose elements carry a key. Replacing by key with
  \<open>map\<close> and removing by key with \<open>filter\<close> are the two list operations of the
  program; these lemmas say what they do when the key is absent, and when keys are
  distinct.
\<close>

lemma map_replace_absent:
  "k \<notin> key ` set xs \<Longrightarrow> map (\<lambda>x. if key x \<noteq> k then x else y) xs = xs"
  by (induction xs) auto

lemma map_replace_distinct:
  assumes "distinct (map key xs)" and "i < length xs" and "key (xs ! i) = k"
  shows "map (\<lambda>x. if key x \<noteq> k then x else y) xs = xs[i := y]"
  using assms
proof (induction xs arbitrary: i)
  case Nil
  then show ?case by simp
next
  case (Cons a xs)
  show ?case
  proof (cases i)
    case 0
    with Cons.prems have "key a = k" and "k \<notin> key ` set xs" by auto
    with 0 show ?thesis by (simp add: map_replace_absent)
  next
    case (Suc j)
    with Cons.prems have j: "j < length xs" "key (xs ! j) = k" "distinct (map key xs)"
      by auto
    then have "key (xs ! j) \<in> key ` set xs" by (metis imageI nth_mem)
    with Cons.prems(1) j have "key a \<noteq> k" by auto
    with Suc Cons.IH [OF j(3) j(1) j(2)] show ?thesis by simp
  qed
qed

lemma map_replace_other:
  "i < length xs \<Longrightarrow> key (xs ! i) \<noteq> k \<Longrightarrow>
   map (\<lambda>x. if key x \<noteq> k then x else y) xs ! i = xs ! i"
  by simp

lemma map_replace_keys:
  "key y = k \<Longrightarrow> map key (map (\<lambda>x. if key x \<noteq> k then x else y) xs) = map key xs"
  by (induction xs) auto

lemma filter_neq_absent:
  "k \<notin> key ` set xs \<Longrightarrow> filter (\<lambda>x. key x \<noteq> k) xs = xs"
  by (induction xs) auto

lemma filter_neq_removes:
  "k \<notin> key ` set (filter (\<lambda>x. key x \<noteq> k) xs)"
  by auto

lemma filter_neq_length_distinct:
  assumes "distinct (map key xs)" and "k \<in> key ` set xs"
  shows "Suc (length (filter (\<lambda>x. key x \<noteq> k) xs)) = length xs"
  using assms
proof (induction xs)
  case Nil
  then show ?case by simp
next
  case (Cons a xs)
  show ?case
  proof (cases "key a = k")
    case True
    with Cons.prems have "k \<notin> key ` set xs" by auto
    with True show ?thesis by (simp add: filter_neq_absent)
  next
    case False
    with Cons show ?thesis by auto
  qed
qed

section \<open>Maps\<close>

lemma map_add_upd_apply:
  "(m ++ n) k = (case n k of None \<Rightarrow> m k | Some v \<Rightarrow> Some v)"
  by (simp add: map_add_def)

lemma map_upd_apply_other:
  "k' \<noteq> k \<Longrightarrow> (m(k \<mapsto> v)) k' = m k'"
  by simp

end
