(* ===== verification/JsValue.thy ===== *)
theory JsValue
  imports Prelude
begin

text \<open>
  The JavaScript values that \<^verbatim>\<open>src/pages/Dashboard/index.tsx\<close> handles at run time, and
  the operators it applies to them: truthiness (\<^verbatim>\<open>if (response.data)\<close>), the property
  access \<^verbatim>\<open>.id\<close>, strict inequality \<^verbatim>\<open>!==\<close> and object spread \<^verbatim>\<open>{...x}\<close>. TypeScript's
  types are erased at run time and \<^verbatim>\<open>response.data\<close> is typed \<^verbatim>\<open>any\<close>, so the values are
  modelled dynamically: a food is whatever the remote store sent.

  The universe is that of the \<^verbatim>\<open>FoodProps\<close> interface read liberally: a value is a
  primitive or an object whose properties hold primitives. Numbers are the finite
  numbers that JSON can carry (a rational stands for the double it denotes; no NaN, no
  infinities), strings are lists of code units. Property values that are themselves
  objects or arrays are outside the model, so strict equality never has to compare
  references.
\<close>

section \<open>Values\<close>

datatype prim = JUndefined | JNull | JBool bool | JNum rat | JStr string

type_synonym obj = "string \<rightharpoonup> prim"

datatype jsval = Prim prim | Obj obj

text \<open>What a \<^verbatim>\<open>catch\<close> clause of the program can receive: a \<^verbatim>\<open>TypeError\<close> raised by the
  language, or the rejection of an axios call (with the HTTP status when the server
  answered, \<open>None\<close> for a transport failure).\<close>

datatype js_error = TypeError | AxiosError "nat option"

section \<open>Truthiness\<close>

text \<open>\<^verbatim>\<open>if (response.data)\<close>: \<^verbatim>\<open>undefined\<close>, \<^verbatim>\<open>null\<close>, \<^verbatim>\<open>false\<close>, \<^verbatim>\<open>0\<close> and \<^verbatim>\<open>""\<close> are falsy,
  every object is truthy.\<close>

fun truthy :: "jsval \<Rightarrow> bool" where
  "truthy (Prim JUndefined) = False"
| "truthy (Prim JNull) = False"
| "truthy (Prim (JBool b)) = b"
| "truthy (Prim (JNum n)) = (n \<noteq> 0)"
| "truthy (Prim (JStr s)) = (s \<noteq> [])"
| "truthy (Obj m) = True"

section \<open>Property access\<close>

text \<open>\<^verbatim>\<open>x.id\<close>: a \<^verbatim>\<open>TypeError\<close> on \<^verbatim>\<open>undefined\<close> and \<^verbatim>\<open>null\<close>; \<^verbatim>\<open>undefined\<close> on the other
  primitives (their wrappers have no property \<^verbatim>\<open>id\<close>) and on an object without the
  property; the property's value otherwise.\<close>

fun nullish :: "jsval \<Rightarrow> bool" where
  "nullish (Prim JUndefined) = True"
| "nullish (Prim JNull) = True"
| "nullish v = False"

fun id_of :: "jsval \<Rightarrow> prim" where
  "id_of (Obj m) = (case m ''id'' of None \<Rightarrow> JUndefined | Some v \<Rightarrow> v)"
| "id_of (Prim p) = JUndefined"

definition get_id :: "jsval \<Rightarrow> (js_error, prim) result" where
  "get_id v = (if nullish v then Raise TypeError else Return (id_of v))"

section \<open>Strict inequality\<close>

text \<open>\<^verbatim>\<open>a !== b\<close> on primitives: values of different types differ, values of one type
  are compared by value. Without NaN this is inequality of the modelled values
  (\<^verbatim>\<open>-0\<close> and \<^verbatim>\<open>0\<close> are the same rational, and \<^verbatim>\<open>-0 === 0\<close> holds in JavaScript).\<close>

definition strict_neq :: "prim \<Rightarrow> prim \<Rightarrow> bool" where
  "strict_neq a b \<longleftrightarrow> a \<noteq> b"

section \<open>Object spread\<close>

text \<open>Property keys of a string's characters: the decimal numerals \<^verbatim>\<open>"0"\<close>, \<^verbatim>\<open>"1"\<close>, ...\<close>

definition digit :: "nat \<Rightarrow> char" where
  "digit n = ''0123456789'' ! n"

fun decimal :: "nat \<Rightarrow> string" where
  "decimal n = (if n < 10 then [digit n] else decimal (n div 10) @ [digit (n mod 10)])"

declare decimal.simps [simp del]

definition index_props :: "string \<Rightarrow> obj" where
  "index_props s = map_of (zip (map decimal [0..<length s]) (map (\<lambda>c. JStr [c]) s))"

text \<open>\<^verbatim>\<open>{...x}\<close> copies the own enumerable properties of \<^verbatim>\<open>x\<close>: those of an object, the
  indexed characters of a string, nothing for any other primitive (\<^verbatim>\<open>null\<close> and
  \<^verbatim>\<open>undefined\<close> included: spreading them does not throw).\<close>

fun spread :: "jsval \<Rightarrow> obj" where
  "spread (Obj m) = m"
| "spread (Prim (JStr s)) = index_props s"
| "spread (Prim p) = Map.empty"

lemmas [js_defs] = get_id_def strict_neq_def

section \<open>Lemmas\<close>

subsection \<open>Truthiness and property access\<close>

lemma truthy_not_nullish: "truthy v \<Longrightarrow> \<not> nullish v"
  by (cases v rule: nullish.cases) simp_all

lemma falsy_iff: "\<not> truthy v \<longleftrightarrow> v \<in> Prim ` {JUndefined, JNull, JBool False, JNum 0, JStr []}"
  by (cases v rule: truthy.cases) auto

lemma get_id_Obj [simp]:
  "get_id (Obj m) = Return (case m ''id'' of None \<Rightarrow> JUndefined | Some v \<Rightarrow> v)"
  by (simp add: get_id_def)

lemma get_id_Prim [simp]:
  "get_id (Prim p) = (if p = JUndefined \<or> p = JNull then Raise TypeError else Return JUndefined)"
  by (cases p) (simp_all add: get_id_def)

lemma get_id_Return_iff: "get_id v = Return i \<longleftrightarrow> \<not> nullish v \<and> id_of v = i"
  by (auto simp: get_id_def)

lemma get_id_Raise_iff: "get_id v = Raise e \<longleftrightarrow> nullish v \<and> e = TypeError"
  by (auto simp: get_id_def)

lemma get_id_not_nullish: "\<not> nullish v \<Longrightarrow> get_id v = Return (id_of v)"
  by (simp add: get_id_def)

lemma get_id_truthy: "truthy v \<Longrightarrow> get_id v = Return (id_of v)"
  by (simp add: get_id_not_nullish truthy_not_nullish)

lemma strict_neq_irrefl [simp]: "\<not> strict_neq a a"
  by (simp add: strict_neq_def)

lemma strict_neq_sym: "strict_neq a b \<longleftrightarrow> strict_neq b a"
  by (auto simp: strict_neq_def)

subsection \<open>Decimal keys are distinct\<close>

lemma digit_inj: "m < 10 \<Longrightarrow> n < 10 \<Longrightarrow> digit m = digit n \<Longrightarrow> m = n"
  unfolding digit_def by (subst (asm) nth_eq_iff_index_eq) simp_all

lemma decimal_nonempty: "decimal n \<noteq> []"
  by (subst decimal.simps) simp

lemma decimal_inj: "decimal m = decimal n \<Longrightarrow> m = n"
proof (induction m arbitrary: n rule: decimal.induct)
  case (1 m)
  show ?case
  proof (cases "m < 10")
    case True
    with "1.prems" have single: "decimal n = [digit m]"
      by (simp add: decimal.simps [of m])
    have "n < 10"
    proof (rule ccontr)
      assume "\<not> n < 10"
      with single have "decimal (n div 10) @ [digit (n mod 10)] = [digit m]"
        by (simp add: decimal.simps [of n])
      then show False by (simp add: decimal_nonempty)
    qed
    with single True show ?thesis
      by (auto simp: decimal.simps [of n] dest: digit_inj)
  next
    case False
    have "\<not> n < 10"
    proof
      assume "n < 10"
      with "1.prems" False have "decimal (m div 10) @ [digit (m mod 10)] = [digit n]"
        by (simp add: decimal.simps [of m] decimal.simps [of n])
      then show False by (simp add: decimal_nonempty)
    qed
    with "1.prems" False have "decimal (m div 10) = decimal (n div 10)"
      and d: "digit (m mod 10) = digit (n mod 10)"
      by (simp_all add: decimal.simps [of m] decimal.simps [of n])
    with "1.IH" False have "m div 10 = n div 10" by simp
    moreover have "m mod 10 = n mod 10" by (rule digit_inj [OF _ _ d]) simp_all
    ultimately show ?thesis by (metis div_mult_mod_eq)
  qed
qed

lemma distinct_decimal_keys: "distinct (map decimal [0..<n])"
  by (auto simp: distinct_map intro!: inj_onI dest: decimal_inj)

subsection \<open>Spread\<close>

lemma index_props_nth:
  assumes "i < length s"
  shows "index_props s (decimal i) = Some (JStr [s ! i])"
proof -
  let ?ks = "map decimal [0..<length s]" and ?vs = "map (\<lambda>c. JStr [c]) s"
  have "map_of (zip ?ks ?vs) (?ks ! i) = Some (?vs ! i)"
    using assms by (intro map_of_zip_nth) (simp_all add: distinct_decimal_keys)
  with assms show ?thesis by (simp add: index_props_def)
qed

lemma dom_index_props: "dom (index_props s) = decimal ` {..<length s}"
  by (auto simp: index_props_def lessThan_atLeast0)

lemma spread_nullish: "nullish v \<Longrightarrow> spread v = Map.empty"
  by (cases v rule: nullish.cases) simp_all


lemma decimal_small: "n < 10 \<Longrightarrow> decimal n = [digit n]"
  by (simp add: decimal.simps)

text \<open>Spreading a string into an object yields one property per character: the
  key of the character at position \<open>i\<close> is the decimal numeral of \<open>i\<close> and its value the
  one-character string; distinct positions have distinct keys and there are no other
  properties.\<close>

theorem spread_string_characters:
  assumes "i < length s"
  shows "spread (Prim (JStr s)) (decimal i) = Some (JStr [s ! i])
    \<and> dom (spread (Prim (JStr s))) = decimal ` {..<length s}
    \<and> inj decimal"
  using assms by (auto simp: index_props_nth dom_index_props intro: injI dest: decimal_inj)

theorem spread_string_characters_witness:
  "spread (Prim (JStr ''ab'')) ''1'' = Some (JStr ''b'')
   \<and> dom (spread (Prim (JStr ''ab''))) = {''0'', ''1''}"
  using spread_string_characters [of 1 "''ab''"]
  by (simp add: decimal_small digit_def lessThan_Suc numeral_2_eq_2 insert_commute)

end
