(* ===== verification/Api.thy ===== *)
theory Api
  imports JsValue
begin

text \<open>
  The interface between the Dashboard and the remote store: the four calls the
  component makes on the axios instance \<^verbatim>\<open>api\<close> (\<^verbatim>\<open>api.get('/foods')\<close>,
  \<^verbatim>\<open>api.post('/foods', body)\<close>, \<^verbatim>\<open>api.put(`/foods/${id}`, body)\<close> and
  \<^verbatim>\<open>api.delete(`/foods/${id}`)\<close>) and the two ways such a call settles. The module
  \<^verbatim>\<open>services/api\<close> itself is not part of the sources; what the server answers is an
  input of the handlers.

  A path \<^verbatim>\<open>/foods/${x}\<close> is kept as the value \<open>x\<close> that the template literal
  interpolates: the conversion of \<open>x\<close> to a string is not modelled, so the model
  distinguishes the targets \<^verbatim>\<open>1\<close> and \<^verbatim>\<open>"1"\<close> although their paths coincide.
\<close>

section \<open>Requests and responses\<close>

datatype request =
    GetFoods
  | PostFood obj
  | PutFood prim obj
  | DeleteFood prim

text \<open>An axios promise is fulfilled with a response whose \<^verbatim>\<open>data\<close> is the parsed
  body, or rejected (network failure, timeout, status outside 2xx).\<close>

datatype 'a response = Resolved 'a | Rejected js_error

end
