(* ===== verification/Dashboard.thy ===== *)
theory Dashboard
  imports Api "HOL-Library.Sublist"
begin

text \<open>
  The Dashboard component of \<^verbatim>\<open>src/pages/Dashboard/index.tsx\<close>: its four state hooks as
  a record, the state setters and the two console outcomes as a datatype of effects,
  and one definition per handler. A handler is a closure of the render that created
  it: it reads the state \<open>s\<close> of that render and calls setters with values computed
  from \<open>s\<close>. An \<^verbatim>\<open>async\<close> handler runs up to its \<^verbatim>\<open>await\<close>, where it becomes a task that
  waits for the response; its continuation still reads the same \<open>s\<close>.
\<close>

section \<open>State\<close>

record dashboard =
  modalOpen :: bool
  editModalOpen :: bool
  foods :: "jsval list"
  editingFood :: jsval

text \<open>The initial values of the four \<^verbatim>\<open>useState\<close> hooks; the editing slot starts as the
  empty object \<^verbatim>\<open>{}\<close>.\<close>

definition initial :: dashboard where
  "initial = \<lparr>modalOpen = False, editModalOpen = False, foods = [], editingFood = Obj Map.empty\<rparr>"

lemma initial_fields [simp]:
  "modalOpen initial = False" "editModalOpen initial = False"
  "foods initial = []" "editingFood initial = Obj Map.empty"
  by (simp_all add: initial_def)

section \<open>Effects\<close>

text \<open>What a handler does to the world: it calls one of the four setters, logs a caught
  error with \<^verbatim>\<open>console.log\<close>, or lets an error escape (the promise of the \<^verbatim>\<open>async\<close>
  function is rejected and nobody handles it).\<close>

datatype effect =
    SetModalOpen bool
  | SetEditModalOpen bool
  | SetFoods "jsval list"
  | SetEditingFood jsval
  | ConsoleLog js_error
  | Unhandled js_error

text \<open>React applies a setter call to the current state; the console effects leave the
  state alone.\<close>

fun commit :: "effect \<Rightarrow> dashboard \<Rightarrow> dashboard" where
  "commit (SetModalOpen b) s = s\<lparr>modalOpen := b\<rparr>"
| "commit (SetEditModalOpen b) s = s\<lparr>editModalOpen := b\<rparr>"
| "commit (SetFoods fs) s = s\<lparr>foods := fs\<rparr>"
| "commit (SetEditingFood f) s = s\<lparr>editingFood := f\<rparr>"
| "commit (ConsoleLog e) s = s"
| "commit (Unhandled e) s = s"

definition commits :: "effect list \<Rightarrow> dashboard \<Rightarrow> dashboard" where
  "commits es s = fold commit es s"

fun logged :: "effect \<Rightarrow> js_error option" where
  "logged (ConsoleLog e) = Some e"
| "logged eff = None"

fun escaped :: "effect \<Rightarrow> js_error option" where
  "escaped (Unhandled e) = Some e"
| "escaped eff = None"

section \<open>Tasks\<close>

text \<open>An invocation of a handler either finishes at once with its effects, or sends a
  request and waits; the continuation maps the settled response to the effects of the
  rest of the function body.\<close>

datatype 'a task =
    Done "effect list"
  | Await request "'a response \<Rightarrow> effect list"

fun sent :: "'a task \<Rightarrow> request option" where
  "sent (Done es) = None"
| "sent (Await q k) = Some q"

fun settle :: "'a task \<Rightarrow> 'a response \<Rightarrow> effect list" where
  "settle (Done es) r = es"
| "settle (Await q k) r = k r"

text \<open>A handler run to completion with no other event in between: the effects of its
  task, committed to the state the handler was created in.\<close>

definition run :: "dashboard \<Rightarrow> 'a task \<Rightarrow> 'a response \<Rightarrow> dashboard" where
  "run s t r = commits (settle t r) s"

section \<open>Handlers\<close>

subsection \<open>Initial fetch\<close>

text \<open>\<^verbatim>\<open>getFoods\<close> inside \<^verbatim>\<open>useEffect\<close>: no \<^verbatim>\<open>try\<close>, so a rejection escapes.\<close>

definition getFoods :: "jsval list task" where
  "getFoods = Await GetFoods
     (\<lambda>response. case response of
        Rejected err \<Rightarrow> [Unhandled err]
      | Resolved d \<Rightarrow> [SetFoods d])"

subsection \<open>Add\<close>

definition handleAddFood :: "dashboard \<Rightarrow> jsval \<Rightarrow> jsval task" where
  "handleAddFood s food = Await (PostFood ((spread food)(''available'' \<mapsto> JBool True)))
     (\<lambda>response. case response of
        Rejected err \<Rightarrow> [ConsoleLog err]
      | Resolved d \<Rightarrow> if truthy d then [SetFoods (foods s @ [d])] else [])"

subsection \<open>Update\<close>

text \<open>The callback of \<^verbatim>\<open>foods.map\<close>: \<^verbatim>\<open>food.id !== foodUpdated.data.id ? food : foodUpdated.data\<close>.
  Both property accesses may throw.\<close>

definition replace_food :: "jsval \<Rightarrow> jsval \<Rightarrow> (js_error, jsval) result" where
  "replace_food d food =
     (case get_id food of
        Inl err \<Rightarrow> Raise err
      | Inr i \<Rightarrow>
          (case get_id d of
             Inl err \<Rightarrow> Raise err
           | Inr j \<Rightarrow> Return (if strict_neq i j then food else d)))"

definition handleUpdateFood :: "dashboard \<Rightarrow> jsval \<Rightarrow> jsval task" where
  "handleUpdateFood s food =
     (case get_id (editingFood s) of
        Inl err \<Rightarrow> Done [ConsoleLog err]
      | Inr i \<Rightarrow>
          Await (PutFood i (spread (editingFood s) ++ spread food))
            (\<lambda>foodUpdated. case foodUpdated of
               Rejected err \<Rightarrow> [ConsoleLog err]
             | Resolved d \<Rightarrow>
                 (case array_map (replace_food d) (foods s) of
                    Inl err \<Rightarrow> [ConsoleLog err]
                  | Inr foodsUpdated \<Rightarrow> [SetFoods foodsUpdated])))"

subsection \<open>Delete\<close>

text \<open>The callback of \<^verbatim>\<open>foods.filter\<close>: \<^verbatim>\<open>food.id !== id\<close>.\<close>

definition keep_food :: "prim \<Rightarrow> jsval \<Rightarrow> (js_error, bool) result" where
  "keep_food i food =
     (case get_id food of
        Inl err \<Rightarrow> Raise err
      | Inr j \<Rightarrow> Return (strict_neq j i))"

definition handleDeleteFood :: "dashboard \<Rightarrow> prim \<Rightarrow> jsval task" where
  "handleDeleteFood s i = Await (DeleteFood i)
     (\<lambda>response. case response of
        Rejected err \<Rightarrow> [Unhandled err]
      | Resolved d \<Rightarrow>
          (case array_filter (keep_food i) (foods s) of
             Inl err \<Rightarrow> [Unhandled err]
           | Inr foodsFiltered \<Rightarrow> [SetFoods foodsFiltered]))"

subsection \<open>Modals and the editing slot\<close>

definition toggleModal :: "dashboard \<Rightarrow> effect list" where
  "toggleModal s = [SetModalOpen (\<not> modalOpen s)]"

definition toggleEditModal :: "dashboard \<Rightarrow> effect list" where
  "toggleEditModal s = [SetEditModalOpen (\<not> editModalOpen s)]"

definition handleEditFood :: "jsval \<Rightarrow> effect list" where
  "handleEditFood food = [SetEditingFood food, SetEditModalOpen True]"

lemmas [handler_defs] =
  getFoods_def handleAddFood_def handleUpdateFood_def handleDeleteFood_def
  toggleModal_def toggleEditModal_def handleEditFood_def run_def commits_def

section \<open>Committing effects\<close>

lemma commits_Nil [simp]: "commits [] s = s"
  by (simp add: commits_def)

lemma commits_Cons [simp]: "commits (e # es) s = commits es (commit e s)"
  by (simp add: commits_def)

lemma commits_append: "commits (es @ es') s = commits es' (commits es s)"
  by (simp add: commits_def)

lemma commit_fields [commit_simps]:
  "modalOpen (commit e s) = (case e of SetModalOpen b \<Rightarrow> b | _ \<Rightarrow> modalOpen s)"
  "editModalOpen (commit e s) = (case e of SetEditModalOpen b \<Rightarrow> b | _ \<Rightarrow> editModalOpen s)"
  "foods (commit e s) = (case e of SetFoods fs \<Rightarrow> fs | _ \<Rightarrow> foods s)"
  "editingFood (commit e s) = (case e of SetEditingFood f \<Rightarrow> f | _ \<Rightarrow> editingFood s)"
  by (cases e; simp)+

lemma commit_console [simp]:
  "logged e \<noteq> None \<or> escaped e \<noteq> None \<Longrightarrow> commit e s = s"
  by (cases e) simp_all


section \<open>Reading tasks\<close>

lemma settle_Await_Rejected:
  "settle (Await q k) (Rejected e) = k (Rejected e)"
  by simp

lemma run_Done [simp]: "run s (Done es) r = commits es s"
  by (simp add: run_def)

lemma run_Await [simp]: "run s (Await q k) r = commits (k r) s"
  by (simp add: run_def)

section \<open>What the collection operations compute\<close>

text \<open>The specification of the two list operations, free of exceptions: replace by
  id, remove by id. \<open>readable\<close> says that \<^verbatim>\<open>.id\<close> can be read on every element, which
  is what the callbacks of \<^verbatim>\<open>map\<close> and \<^verbatim>\<open>filter\<close> need; \<open>unique_ids\<close> is the invariant
  the specification states for the collection.\<close>

definition readable :: "jsval list \<Rightarrow> bool" where
  "readable fs \<longleftrightarrow> list_all (\<lambda>f. \<not> nullish f) fs"

definition ids :: "jsval list \<Rightarrow> prim list" where
  "ids fs = map id_of fs"

definition unique_ids :: "jsval list \<Rightarrow> bool" where
  "unique_ids fs \<longleftrightarrow> distinct (ids fs)"

definition replaced :: "jsval \<Rightarrow> jsval list \<Rightarrow> jsval list" where
  "replaced d fs = map (\<lambda>f. if id_of f \<noteq> id_of d then f else d) fs"

definition removed :: "prim \<Rightarrow> jsval list \<Rightarrow> jsval list" where
  "removed i fs = filter (\<lambda>f. id_of f \<noteq> i) fs"

lemmas collection_defs = readable_def ids_def unique_ids_def replaced_def removed_def

lemma readable_simps [simp]:
  "readable []"
  "readable (f # fs) \<longleftrightarrow> \<not> nullish f \<and> readable fs"
  "readable (fs @ gs) \<longleftrightarrow> readable fs \<and> readable gs"
  by (simp_all add: readable_def)

lemma readable_iff: "readable fs \<longleftrightarrow> (\<forall>f \<in> set fs. \<not> nullish f)"
  by (simp add: readable_def list_all_iff)

lemma replace_food_readable:
  "\<not> nullish d \<Longrightarrow> \<not> nullish f \<Longrightarrow>
   replace_food d f = Return (if id_of f \<noteq> id_of d then f else d)"
  by (simp add: replace_food_def get_id_not_nullish strict_neq_def)

lemma replace_food_nullish:
  "nullish d \<or> nullish f \<Longrightarrow> replace_food d f = Raise TypeError"
  by (auto simp: replace_food_def get_id_def)

lemma replace_food_Raise: "replace_food d f = Raise e \<Longrightarrow> e = TypeError"
  by (auto simp: replace_food_def get_id_def split: if_splits)

lemma keep_food_readable: "\<not> nullish f \<Longrightarrow> keep_food i f = Return (id_of f \<noteq> i)"
  by (simp add: keep_food_def get_id_not_nullish strict_neq_def)

lemma keep_food_nullish: "nullish f \<Longrightarrow> keep_food i f = Raise TypeError"
  by (simp add: keep_food_def get_id_def)

lemma keep_food_Raise: "keep_food i f = Raise e \<Longrightarrow> e = TypeError"
  by (auto simp: keep_food_def get_id_def split: if_splits)

text \<open>\<^verbatim>\<open>foods.map\<close> with the replacing callback computes \<open>replaced\<close>, or throws a
  \<^verbatim>\<open>TypeError\<close>: on an empty collection the callback never runs, so nothing is read.\<close>

lemma array_map_replace_food:
  "array_map (replace_food d) fs =
     (if fs = [] \<or> (\<not> nullish d \<and> readable fs) then Return (replaced d fs)
      else Raise TypeError)"
proof (cases "fs = [] \<or> (\<not> nullish d \<and> readable fs)")
  case True
  then have "array_map (replace_food d) fs
      = Return (map (\<lambda>f. if id_of f \<noteq> id_of d then f else d) fs)"
    by (intro array_map_total) (auto simp: readable_iff replace_food_readable)
  with True show ?thesis by (simp add: replaced_def)
next
  case False
  then obtain f where f: "f \<in> set fs" "nullish d \<or> nullish f"
    by (cases fs) (auto simp: readable_iff)
  then have "array_map (replace_food d) fs = Raise TypeError"
    by (intro array_map_uniform_error [of f]) (auto simp: replace_food_nullish dest: replace_food_Raise)
  with False show ?thesis by simp
qed

lemma array_filter_keep_food:
  "array_filter (keep_food i) fs =
     (if readable fs then Return (removed i fs) else Raise TypeError)"
proof (cases "readable fs")
  case True
  then have "array_filter (keep_food i) fs = Return (filter (\<lambda>f. id_of f \<noteq> i) fs)"
    by (intro array_filter_total) (auto simp: readable_iff keep_food_readable)
  with True show ?thesis by (simp add: removed_def)
next
  case False
  then obtain f where f: "f \<in> set fs" "nullish f"
    by (auto simp: readable_iff)
  then have "array_filter (keep_food i) fs = Raise TypeError"
    by (intro array_filter_uniform_error [of f]) (auto simp: keep_food_nullish dest: keep_food_Raise)
  with False show ?thesis by simp
qed

lemma ids_replaced [simp]: "ids (replaced d fs) = ids fs"
  by (simp add: ids_def replaced_def map_replace_keys)

lemma length_replaced [simp]: "length (replaced d fs) = length fs"
  by (simp add: replaced_def)

lemma replaced_absent: "id_of d \<notin> set (ids fs) \<Longrightarrow> replaced d fs = fs"
  by (simp add: ids_def replaced_def map_replace_absent)

lemma replaced_unique:
  "unique_ids fs \<Longrightarrow> i < length fs \<Longrightarrow> id_of (fs ! i) = id_of d \<Longrightarrow> replaced d fs = fs[i := d]"
  by (simp add: unique_ids_def ids_def replaced_def map_replace_distinct)

lemma readable_replaced: "readable fs \<Longrightarrow> fs = [] \<or> \<not> nullish d \<Longrightarrow> readable (replaced d fs)"
  by (auto simp: readable_iff replaced_def)

lemma readable_removed: "readable fs \<Longrightarrow> readable (removed i fs)"
  by (auto simp: readable_iff removed_def)

lemma unique_ids_removed: "unique_ids fs \<Longrightarrow> unique_ids (removed i fs)"
  by (simp add: unique_ids_def ids_def removed_def distinct_map_filter)

lemma ids_removed: "i \<notin> set (ids (removed i fs))"
  by (auto simp: ids_def removed_def)

lemma unique_ids_snoc: "unique_ids (fs @ [d]) \<longleftrightarrow> unique_ids fs \<and> id_of d \<notin> set (ids fs)"
  by (auto simp: unique_ids_def ids_def)

section \<open>The effects of each settled handler\<close>

text \<open>One equation per asynchronous handler: the effects it performs once its request
  has settled, on every branch. The properties below are read off these equations.\<close>

lemma settle_getFoods:
  "settle getFoods r = (case r of Rejected e \<Rightarrow> [Unhandled e] | Resolved d \<Rightarrow> [SetFoods d])"
  by (simp add: getFoods_def)

lemma settle_add:
  "settle (handleAddFood s food) r =
     (case r of
        Rejected e \<Rightarrow> [ConsoleLog e]
      | Resolved d \<Rightarrow> if truthy d then [SetFoods (foods s @ [d])] else [])"
  by (simp add: handleAddFood_def)

lemma settle_update:
  "settle (handleUpdateFood s food) r =
     (if nullish (editingFood s) then [ConsoleLog TypeError]
      else case r of
        Rejected e \<Rightarrow> [ConsoleLog e]
      | Resolved d \<Rightarrow>
          if foods s = [] \<or> (\<not> nullish d \<and> readable (foods s))
          then [SetFoods (replaced d (foods s))]
          else [ConsoleLog TypeError])"
  by (cases r) (auto simp: handleUpdateFood_def get_id_def array_map_replace_food)

lemma settle_delete:
  "settle (handleDeleteFood s i) r =
     (case r of
        Rejected e \<Rightarrow> [Unhandled e]
      | Resolved d \<Rightarrow>
          if readable (foods s) then [SetFoods (removed i (foods s))]
          else [Unhandled TypeError])"
  by (cases r) (auto simp: handleDeleteFood_def array_filter_keep_food)

lemmas settle_handlers = settle_getFoods settle_add settle_update settle_delete

lemma sent_handlers:
  "sent getFoods = Some GetFoods"
  "sent (handleAddFood s food) = Some (PostFood ((spread food)(''available'' \<mapsto> JBool True)))"
  "sent (handleUpdateFood s food) =
     (if nullish (editingFood s) then None
      else Some (PutFood (id_of (editingFood s)) (spread (editingFood s) ++ spread food)))"
  "sent (handleDeleteFood s i) = Some (DeleteFood i)"
  by (simp_all add: getFoods_def handleAddFood_def handleUpdateFood_def handleDeleteFood_def
      get_id_def)

text \<open>An event dispatched in the render of state \<open>s\<close>: the synchronous handler that this
  render created runs, and React commits its setter calls.\<close>

definition act :: "(dashboard \<Rightarrow> effect list) \<Rightarrow> dashboard \<Rightarrow> dashboard" where
  "act h s = commits (h s) s"

text \<open>Effects that leave the two modal flags and the editing slot alone.\<close>

fun touches_only_foods :: "effect \<Rightarrow> bool" where
  "touches_only_foods (SetModalOpen b) = False"
| "touches_only_foods (SetEditModalOpen b) = False"
| "touches_only_foods (SetEditingFood f) = False"
| "touches_only_foods e = True"

lemma commit_only_foods:
  "touches_only_foods e \<Longrightarrow> commit e s = s\<lparr>foods := foods (commit e s)\<rparr>"
  by (cases e) simp_all

lemma commits_only_foods:
  "list_all touches_only_foods es \<Longrightarrow> commits es s = s\<lparr>foods := foods (commits es s)\<rparr>"
proof (induction es arbitrary: s)
  case Nil
  then show ?case by simp
next
  case (Cons e es)
  then have e: "commit e s = s\<lparr>foods := foods (commit e s)\<rparr>"
    and "commits es (commit e s) = (commit e s)\<lparr>foods := foods (commits es (commit e s))\<rparr>"
    by (simp_all add: commit_only_foods [symmetric])
  then have "commits es (commit e s)
      = (s\<lparr>foods := foods (commit e s)\<rparr>)\<lparr>foods := foods (commits es (commit e s))\<rparr>"
    by simp
  then show ?case by simp
qed

lemma settle_only_foods:
  "list_all touches_only_foods (settle getFoods r0)"
  "list_all touches_only_foods (settle (handleAddFood s food) r)"
  "list_all touches_only_foods (settle (handleUpdateFood s patch) r)"
  "list_all touches_only_foods (settle (handleDeleteFood s i) r)"
  by (cases r0; cases r; simp add: settle_handlers)+

text \<open>The collection a settled handler writes is readable when the collection its
  closure captured was, also when it is committed to a later state \<open>s'\<close>.\<close>

lemma stale_settle_readable:
  assumes "readable (foods s)" and "readable (foods s')"
  shows "readable (foods (commits (settle (handleAddFood s food) r) s'))"
    and "readable (foods (commits (settle (handleUpdateFood s patch) r) s'))"
    and "readable (foods (commits (settle (handleDeleteFood s i) r) s'))"
  using assms
  by (cases r; auto simp: settle_handlers truthy_not_nullish readable_replaced readable_removed)+

section \<open>Stale writes\<close>

text \<open>Whether a list of effects writes the collection.\<close>

fun sets_foods :: "effect list \<Rightarrow> bool" where
  "sets_foods [] = False"
| "sets_foods (SetFoods fs # es) = True"
| "sets_foods (e # es) = sets_foods es"

text \<open>Effects that write the collection write the same collection on every state;
  effects that do not, leave it alone.\<close>

lemma foods_commits_idle: "\<not> sets_foods es \<Longrightarrow> foods (commits es s) = foods s"
  by (induction es arbitrary: s rule: sets_foods.induct) simp_all

lemma foods_commits_stale: "sets_foods es \<Longrightarrow> foods (commits es s') = foods (commits es s)"
proof (induction es arbitrary: s s')
  case Nil
  then show ?case by simp
next
  case (Cons e es)
  show ?case
  proof (cases "sets_foods es")
    case True
    then show ?thesis by (simp add: Cons.IH)
  next
    case False
    with Cons.prems obtain fs where "e = SetFoods fs" by (cases e) simp_all
    with False show ?thesis by (simp add: foods_commits_idle)
  qed
qed

lemma foods_commits:
  "foods (commits es s') = (if sets_foods es then foods (commits es s) else foods s')"
  using foods_commits_stale [of es s' s] by (simp add: foods_commits_idle)

lemma mem_replaced: "x \<in> set (replaced d fs) \<Longrightarrow> x = d \<or> x \<in> set fs"
  by (auto simp: replaced_def split: if_splits)

lemma mem_removed: "x \<in> set (removed i fs) \<Longrightarrow> x \<in> set fs"
  by (simp add: removed_def)

section \<open>The collection after each handler\<close>

lemma run_update_ids:
  "ids (foods (run s (handleUpdateFood s patch) r)) = ids (foods s)"
  by (cases r) (simp_all add: run_def settle_update)

lemma run_delete_foods:
  "foods (run s (handleDeleteFood s i) r) \<in> {foods s, removed i (foods s)}"
  by (cases r) (simp_all add: run_def settle_delete)

lemma run_add_foods:
  "foods (run s (handleAddFood s food) r) =
     (case r of Resolved d \<Rightarrow> if truthy d then foods s @ [d] else foods s | Rejected e \<Rightarrow> foods s)"
  by (cases r) (simp_all add: run_def settle_add)

section \<open>Example data\<close>

text \<open>The items of the scenario of the specification, used to instantiate the
  properties that have hypotheses.\<close>

definition pizza :: jsval where
  "pizza = Obj [''id'' \<mapsto> JNum 1, ''name'' \<mapsto> JStr ''Pizza'', ''price'' \<mapsto> JNum 20,
     ''available'' \<mapsto> JBool True]"

definition pizza25 :: jsval where
  "pizza25 = Obj [''id'' \<mapsto> JNum 1, ''name'' \<mapsto> JStr ''Pizza'', ''price'' \<mapsto> JNum 25,
     ''available'' \<mapsto> JBool True]"

definition pasta :: jsval where
  "pasta = Obj [''id'' \<mapsto> JNum 2, ''name'' \<mapsto> JStr ''Pasta'', ''price'' \<mapsto> JNum 15,
     ''available'' \<mapsto> JBool True]"

definition menu :: dashboard where
  "menu = initial\<lparr>foods := [pizza, pasta], editingFood := pizza\<rparr>"

lemmas example_defs = pizza_def pizza25_def pasta_def menu_def initial_def

lemma example_ids [simp]:
  "id_of pizza = JNum 1" "id_of pizza25 = JNum 1" "id_of pasta = JNum 2"
  "\<not> nullish pizza" "\<not> nullish pizza25" "\<not> nullish pasta"
  "truthy pizza" "truthy pizza25" "truthy pasta"
  by (simp_all add: example_defs)

lemma menu_fields [simp]:
  "foods menu = [pizza, pasta]" "editingFood menu = pizza"
  "modalOpen menu = False" "editModalOpen menu = False"
  by (simp_all add: menu_def initial_def)

section \<open>Add\<close>

text \<open>C1. A settled add appends the returned item to the end of the collection of the
  render that started it when that item is truthy, and changes nothing when the
  response carries a falsy body (\<^verbatim>\<open>undefined\<close>, \<^verbatim>\<open>null\<close>, \<^verbatim>\<open>""\<close>, \<^verbatim>\<open>0\<close>, \<^verbatim>\<open>false\<close>); no
  other field of the state changes.\<close>

theorem add_settles:
  "run s (handleAddFood s food) (Resolved d) =
     (if truthy d then s\<lparr>foods := foods s @ [d]\<rparr> else s)"
  by (simp add: run_def settle_add)

text \<open>C6. The request of an add carries \<^verbatim>\<open>available: true\<close> whatever the candidate
  says, and every other property of the candidate unchanged; it does not depend on
  the state.\<close>

theorem add_request_forces_available:
  "\<exists>b. sent (handleAddFood s food) = Some (PostFood b)
     \<and> b ''available'' = Some (JBool True)
     \<and> b |` (- {''available''}) = spread food |` (- {''available''})"
  by (rule exI [of _ "(spread food)(''available'' \<mapsto> JBool True)"])
    (simp add: sent_handlers restrict_map_def fun_eq_iff)

section \<open>Update\<close>

text \<open>C2. A settled update, on every branch. With an editing slot that is \<^verbatim>\<open>null\<close> or
  \<^verbatim>\<open>undefined\<close> nothing is sent and a \<^verbatim>\<open>TypeError\<close> is logged. Otherwise the collection
  of the starting render becomes the same list with every element whose id equals the
  id of the returned item replaced by that item; if some element, or the returned
  item, is \<^verbatim>\<open>null\<close> or \<^verbatim>\<open>undefined\<close> and the collection is not empty, the \<^verbatim>\<open>TypeError\<close> of
  the callback is caught and logged and the state is unchanged.\<close>

theorem update_settles:
  "settle (handleUpdateFood s patch) (Resolved d) =
     (if \<not> nullish (editingFood s) \<and> (foods s = [] \<or> (\<not> nullish d \<and> readable (foods s)))
      then [SetFoods (replaced d (foods s))] else [ConsoleLog TypeError])
   \<and> run s (handleUpdateFood s patch) (Resolved d) =
     (if \<not> nullish (editingFood s) \<and> (foods s = [] \<or> (\<not> nullish d \<and> readable (foods s)))
      then s\<lparr>foods := replaced d (foods s)\<rparr> else s)"
  by (simp add: run_def settle_update)

text \<open>C5. The request of an update targets the id of the editing slot, and its body is
  the field-wise merge of the editing slot and the patch, the patch taking precedence;
  nothing is sent when the editing slot is \<^verbatim>\<open>null\<close> or \<^verbatim>\<open>undefined\<close>.\<close>

theorem update_request_merges:
  "sent (handleUpdateFood s patch) =
     (if nullish (editingFood s) then None
      else Some (PutFood (id_of (editingFood s))
        (\<lambda>k. case spread patch k of None \<Rightarrow> spread (editingFood s) k | Some v \<Rightarrow> Some v)))"
  by (simp add: sent_handlers map_add_def)

text \<open>C7. When ids are unique and the returned item carries the id of the element at
  position \<open>i\<close>, a successful update replaces exactly that element: the collection
  becomes the old one with position \<open>i\<close> overwritten, all other positions untouched.\<close>

theorem update_replaces_exactly_one:
  assumes "\<not> nullish (editingFood s)" and "readable (foods s)" and "\<not> nullish d"
    and "unique_ids (foods s)" and "i < length (foods s)" and "id_of (foods s ! i) = id_of d"
  shows "run s (handleUpdateFood s patch) (Resolved d) = s\<lparr>foods := (foods s)[i := d]\<rparr>"
  using assms by (simp add: run_def settle_update replaced_unique)

theorem update_replaces_exactly_one_witness:
  "run menu (handleUpdateFood menu (Obj [''price'' \<mapsto> JNum 25])) (Resolved pizza25)
     = menu\<lparr>foods := [pizza25, pasta]\<rparr>"
  using update_replaces_exactly_one [of menu pizza25 0 "Obj [''price'' \<mapsto> JNum 25]"]
  by (simp add: collection_defs)

text \<open>C28. An update whose returned item carries an id that no element has changes
  nothing, silently: no error is logged.\<close>

theorem update_unknown_id_is_noop:
  assumes "\<not> nullish (editingFood s)" and "readable (foods s)" and "\<not> nullish d"
    and "id_of d \<notin> set (ids (foods s))"
  shows "settle (handleUpdateFood s patch) (Resolved d) = [SetFoods (foods s)]
    \<and> run s (handleUpdateFood s patch) (Resolved d) = s"
  using assms by (simp add: run_def settle_update replaced_absent)

theorem update_unknown_id_is_noop_witness:
  "settle (handleUpdateFood menu (Obj Map.empty)) (Resolved (Obj [''id'' \<mapsto> JNum 7]))
     = [SetFoods (foods menu)]
   \<and> run menu (handleUpdateFood menu (Obj Map.empty)) (Resolved (Obj [''id'' \<mapsto> JNum 7])) = menu"
  using update_unknown_id_is_noop [of menu "Obj [''id'' \<mapsto> JNum 7]" "Obj Map.empty"]
  by (simp add: collection_defs)

text \<open>C21. An update never changes the sequence of ids of the collection, whatever the
  response: it neither adds, removes nor reorders items.\<close>

theorem update_keeps_ids:
  "ids (foods (run s (handleUpdateFood s patch) r)) = ids (foods s)"
  by (rule run_update_ids)

section \<open>Delete\<close>

text \<open>C3. A settled delete, on every branch: the collection of the starting render
  loses every element whose id equals the given id and keeps the others in their
  order; if some element is \<^verbatim>\<open>null\<close> or \<^verbatim>\<open>undefined\<close> the \<^verbatim>\<open>TypeError\<close> of the callback
  escapes and the state is unchanged.\<close>

theorem delete_settles:
  "settle (handleDeleteFood s i) (Resolved d) =
     (if readable (foods s) then [SetFoods (removed i (foods s))] else [Unhandled TypeError])
   \<and> run s (handleDeleteFood s i) (Resolved d) =
     (if readable (foods s) then s\<lparr>foods := removed i (foods s)\<rparr> else s)"
  by (simp add: run_def settle_delete)

text \<open>C20. After a successful delete no element carries the deleted id, the remaining
  elements are a subsequence of the old collection, and with unique ids the length
  drops by exactly one when the id was present.\<close>

theorem delete_removes_id_keeps_order:
  assumes "readable (foods s)"
  shows "i \<notin> set (ids (foods (run s (handleDeleteFood s i) (Resolved d))))
    \<and> subseq (foods (run s (handleDeleteFood s i) (Resolved d))) (foods s)
    \<and> (if unique_ids (foods s) \<and> i \<in> set (ids (foods s))
       then Suc (length (foods (run s (handleDeleteFood s i) (Resolved d)))) = length (foods s)
       else True)"
  using assms
  by (auto simp: run_def settle_delete ids_removed
      simp: removed_def ids_def unique_ids_def filter_neq_length_distinct)

theorem delete_removes_id_keeps_order_witness:
  "foods (run menu (handleDeleteFood menu (JNum 1)) (Resolved (Obj Map.empty))) = [pasta]
   \<and> JNum 1 \<notin> set (ids (foods (run menu (handleDeleteFood menu (JNum 1)) (Resolved (Obj Map.empty)))))
   \<and> subseq (foods (run menu (handleDeleteFood menu (JNum 1)) (Resolved (Obj Map.empty)))) (foods menu)"
  using delete_removes_id_keeps_order [of menu "JNum 1" "Obj Map.empty"]
  by (simp add: run_def settle_delete collection_defs)

section \<open>Failures\<close>

text \<open>C18. A rejected add or update is caught: the error is logged (for an update whose
  editing slot cannot be read, the \<^verbatim>\<open>TypeError\<close> raised before the call) and the state
  is the one before the call.\<close>

theorem rejected_add_update_keep_state:
  "settle (handleAddFood s food) (Rejected e) = [ConsoleLog e]
   \<and> run s (handleAddFood s food) (Rejected e) = s
   \<and> settle (handleUpdateFood s patch) (Rejected e)
       = [ConsoleLog (if nullish (editingFood s) then TypeError else e)]
   \<and> run s (handleUpdateFood s patch) (Rejected e) = s"
  by (simp add: run_def settle_add settle_update)

text \<open>C19. A rejected delete, and a rejected initial fetch, are not caught: the error
  escapes as an unhandled rejection and the collection is not touched, so nothing is
  removed locally.\<close>

theorem rejected_delete_fetch_escape:
  "settle (handleDeleteFood s i) (Rejected e) = [Unhandled e]
   \<and> run s (handleDeleteFood s i) (Rejected e) = s
   \<and> settle getFoods (Rejected e) = [Unhandled e]
   \<and> run s getFoods (Rejected e) = s"
  by (simp add: run_def settle_delete settle_getFoods)

section \<open>Modals and the editing slot\<close>

text \<open>C29. Each toggle flips its own flag and nothing else; dispatched twice, with a
  render in between, it restores the state.\<close>

theorem toggles_flip_own_flag:
  "act toggleModal s = s\<lparr>modalOpen := \<not> modalOpen s\<rparr>
   \<and> act toggleEditModal s = s\<lparr>editModalOpen := \<not> editModalOpen s\<rparr>
   \<and> act toggleModal (act toggleModal s) = s
   \<and> act toggleEditModal (act toggleEditModal s) = s"
  by (simp add: act_def toggleModal_def toggleEditModal_def)

text \<open>C30. Two calls of the toggle created by one render flip the flag once, not
  twice: both closures read the flag of that render, so the second call sets the value
  the first one set. The result is the state with the flag negated, whereas two calls
  with a render in between restore the flag.\<close>

theorem toggle_twice_in_one_render:
  "commits (toggleModal s @ toggleModal s) s = s\<lparr>modalOpen := \<not> modalOpen s\<rparr>
   \<and> commits (toggleEditModal s @ toggleEditModal s) s = s\<lparr>editModalOpen := \<not> editModalOpen s\<rparr>
   \<and> modalOpen (commits (toggleModal s @ toggleModal s) s)
       \<noteq> modalOpen (act toggleModal (act toggleModal s))
   \<and> editModalOpen (commits (toggleEditModal s @ toggleEditModal s) s)
       \<noteq> editModalOpen (act toggleEditModal (act toggleEditModal s))"
  by (simp add: act_def toggleModal_def toggleEditModal_def)

text \<open>C31. Beginning an edit stores the item in the editing slot and sets the edit
  modal open, whether it was open or closed; the collection and the add modal are
  unchanged.\<close>

theorem edit_sets_slot_and_opens:
  "commits (handleEditFood food) s = s\<lparr>editingFood := food, editModalOpen := True\<rparr>"
  by (simp add: handleEditFood_def)

text \<open>C32. Whatever the response, the asynchronous handlers call no setter but
  \<^verbatim>\<open>setFoods\<close>: neither modal flag nor the editing slot changes when a request settles.\<close>

theorem async_handlers_touch_only_foods:
  "list_all touches_only_foods (settle getFoods r0)
   \<and> list_all touches_only_foods (settle (handleAddFood s food) r)
   \<and> list_all touches_only_foods (settle (handleUpdateFood s patch) r)
   \<and> list_all touches_only_foods (settle (handleDeleteFood s i) r)"
  by (simp add: settle_only_foods)

section \<open>Invariants of the collection\<close>

text \<open>C12. Every user-triggered handler keeps the collection readable: if \<^verbatim>\<open>.id\<close> can be
  read on every element before, it can be read on every element after, whatever the
  response. For an add this is what the truthiness guard buys.\<close>

theorem handlers_keep_readable:
  assumes "readable (foods s)"
  shows "readable (foods (run s (handleAddFood s food) r))
    \<and> readable (foods (run s (handleUpdateFood s patch) r))
    \<and> readable (foods (run s (handleDeleteFood s i) r))"
  using assms
  by (cases r) (auto simp: run_def settle_handlers truthy_not_nullish
      readable_replaced readable_removed)

theorem handlers_keep_readable_witness:
  "readable (foods (run menu (handleAddFood menu pasta) (Resolved (Prim JNull))))
   \<and> readable (foods (run menu (handleUpdateFood menu pasta) (Resolved (Prim JNull))))
   \<and> readable (foods (run menu (handleDeleteFood menu JNull) (Resolved (Prim JNull))))"
  using handlers_keep_readable [of menu pasta "Resolved (Prim JNull)" pasta JNull]
  by simp

text \<open>C13. Update and delete keep ids unique whatever the response; a successful add
  keeps them unique exactly when the id of the returned item is not yet in the
  collection.\<close>

theorem handlers_keep_unique_ids:
  assumes "unique_ids (foods s)"
  shows "unique_ids (foods (run s (handleUpdateFood s patch) r))
    \<and> unique_ids (foods (run s (handleDeleteFood s i) r))
    \<and> (unique_ids (foods (run s (handleAddFood s food) (Resolved d)))
        \<longleftrightarrow> \<not> truthy d \<or> id_of d \<notin> set (ids (foods s)))"
proof (intro conjI)
  from assms show "unique_ids (foods (run s (handleUpdateFood s patch) r))"
    by (simp add: unique_ids_def run_update_ids)
  from assms show "unique_ids (foods (run s (handleDeleteFood s i) r))"
    using run_delete_foods [of s i r] by (auto simp: unique_ids_removed)
  from assms show "unique_ids (foods (run s (handleAddFood s food) (Resolved d)))
      \<longleftrightarrow> \<not> truthy d \<or> id_of d \<notin> set (ids (foods s))"
    by (simp add: run_add_foods unique_ids_snoc)
qed

theorem handlers_keep_unique_ids_witness:
  "unique_ids (foods (run menu (handleUpdateFood menu pasta) (Resolved pizza25)))
   \<and> unique_ids (foods (run menu (handleDeleteFood menu (JNum 2)) (Resolved pizza)))
   \<and> \<not> unique_ids (foods (run menu (handleAddFood menu pizza) (Resolved pizza25)))"
  using handlers_keep_unique_ids [of menu pasta "Resolved pizza25" "JNum 2" pizza pizza25]
    handlers_keep_unique_ids [of menu pasta "Resolved pizza" "JNum 2" pizza pizza25]
  by (simp add: collection_defs pizza25_def)

end
