(* ===== verification/EventLoop.thy ===== *)
theory EventLoop
  imports Dashboard
begin

text \<open>
  The Dashboard on the event loop. The handlers of \<^verbatim>\<open>index.tsx\<close> are asynchronous: a
  call runs up to its \<^verbatim>\<open>await\<close> and the rest of its body runs when the response
  arrives, possibly after other events. The system state holds the committed state of
  the component, the suspended calls with their closures, what was sent, and what
  arrived on the console. An event is the mount of the component, a user action on the
  handlers of the current render, or the settling of a pending request. Nothing in the
  program orders the responses, so any pending request may settle next.
\<close>

section \<open>System state\<close>

record system =
  ui :: dashboard
  mounted :: bool
  fetching :: "jsval list task option"
  inflight :: "jsval task list"
  outbox :: "request list"
  console :: "js_error list"
  rejections :: "js_error list"

definition boot :: system where
  "boot = \<lparr>ui = initial, mounted = False, fetching = None, inflight = [], outbox = [],
     console = [], rejections = []\<rparr>"

datatype event =
    Mount
  | Add jsval
  | Update jsval
  | Delete prim
  | ToggleModal
  | ToggleEditModal
  | Edit jsval
  | Settle nat "jsval response"
  | SettleFetch "jsval list response"

section \<open>Steps\<close>

text \<open>Effects reach the system: setter calls are committed to the component state,
  logged and escaped errors are appended to their streams.\<close>

definition perform :: "effect list \<Rightarrow> system \<Rightarrow> system" where
  "perform es \<sigma> = \<sigma>\<lparr>ui := commits es (ui \<sigma>),
     console := console \<sigma> @ List.map_filter logged es,
     rejections := rejections \<sigma> @ List.map_filter escaped es\<rparr>"

text \<open>Calling an asynchronous handler: a task that is already done performs its
  effects, a task that awaits is parked and its request goes out.\<close>

fun launch :: "jsval task \<Rightarrow> system \<Rightarrow> system" where
  "launch (Done es) \<sigma> = perform es \<sigma>"
| "launch (Await q k) \<sigma> = \<sigma>\<lparr>inflight := inflight \<sigma> @ [Await q k], outbox := outbox \<sigma> @ [q]\<rparr>"

definition drop_nth :: "nat \<Rightarrow> 'a list \<Rightarrow> 'a list" where
  "drop_nth n xs = take n xs @ drop (Suc n) xs"

text \<open>One event. User events call the handler that the current render created, so the
  handler closes over \<open>ui \<sigma>\<close>. \<open>None\<close> means that the event cannot happen in this
  state: a second mount, a user event before the mount, the settling of a request
  that is not pending.\<close>

fun step :: "system \<Rightarrow> event \<Rightarrow> system option" where
  "step \<sigma> Mount =
     (if mounted \<sigma> then None
      else Some (\<sigma>\<lparr>mounted := True, fetching := Some getFoods,
        outbox := outbox \<sigma> @ [GetFoods]\<rparr>))"
| "step \<sigma> (Add food) =
     (if mounted \<sigma> then Some (launch (handleAddFood (ui \<sigma>) food) \<sigma>) else None)"
| "step \<sigma> (Update patch) =
     (if mounted \<sigma> then Some (launch (handleUpdateFood (ui \<sigma>) patch) \<sigma>) else None)"
| "step \<sigma> (Delete i) =
     (if mounted \<sigma> then Some (launch (handleDeleteFood (ui \<sigma>) i) \<sigma>) else None)"
| "step \<sigma> ToggleModal =
     (if mounted \<sigma> then Some (perform (toggleModal (ui \<sigma>)) \<sigma>) else None)"
| "step \<sigma> ToggleEditModal =
     (if mounted \<sigma> then Some (perform (toggleEditModal (ui \<sigma>)) \<sigma>) else None)"
| "step \<sigma> (Edit food) =
     (if mounted \<sigma> then Some (perform (handleEditFood food) \<sigma>) else None)"
| "step \<sigma> (Settle n r) =
     (if n < length (inflight \<sigma>)
      then Some (perform (settle (inflight \<sigma> ! n) r) (\<sigma>\<lparr>inflight := drop_nth n (inflight \<sigma>)\<rparr>))
      else None)"
| "step \<sigma> (SettleFetch r) =
     (case fetching \<sigma> of
        None \<Rightarrow> None
      | Some t \<Rightarrow> Some (perform (settle t r) (\<sigma>\<lparr>fetching := None\<rparr>)))"

fun exec :: "system \<Rightarrow> event list \<Rightarrow> system option" where
  "exec \<sigma> [] = Some \<sigma>"
| "exec \<sigma> (e # es) = (case step \<sigma> e of None \<Rightarrow> None | Some \<sigma>' \<Rightarrow> exec \<sigma>' es)"

text \<open>The states the component can be in.\<close>

inductive reachable :: "system \<Rightarrow> bool" where
  boot: "reachable boot"
| step: "reachable \<sigma> \<Longrightarrow> step \<sigma> e = Some \<sigma>' \<Longrightarrow> reachable \<sigma>'"

section \<open>Basic facts\<close>

lemma perform_Nil [simp]: "perform [] \<sigma> = \<sigma>"
  by (simp add: perform_def List.map_filter_simps)

lemma perform_fields [simp]:
  "ui (perform es \<sigma>) = commits es (ui \<sigma>)"
  "mounted (perform es \<sigma>) = mounted \<sigma>"
  "fetching (perform es \<sigma>) = fetching \<sigma>"
  "inflight (perform es \<sigma>) = inflight \<sigma>"
  "outbox (perform es \<sigma>) = outbox \<sigma>"
  "console (perform es \<sigma>) = console \<sigma> @ List.map_filter logged es"
  "rejections (perform es \<sigma>) = rejections \<sigma> @ List.map_filter escaped es"
  by (simp_all add: perform_def)

lemma drop_nth_simps [simp]:
  "drop_nth n [] = []"
  "drop_nth 0 (x # xs) = xs"
  "drop_nth (Suc n) (x # xs) = x # drop_nth n xs"
  by (simp_all add: drop_nth_def)

lemma drop_nth_snoc [simp]: "drop_nth (length xs) (xs @ [x]) = xs"
  by (simp add: drop_nth_def)

lemma drop_nth_snoc_less [simp]:
  "n < length xs \<Longrightarrow> drop_nth n (xs @ [x]) = drop_nth n xs @ [x]"
  by (simp add: drop_nth_def)

lemma drop_nth_append_Cons [simp]: "drop_nth (length xs) (xs @ y # ys) = xs @ ys"
  by (simp add: drop_nth_def)

lemma drop_nth_append_Cons_Suc [simp]:
  "drop_nth (Suc (length xs)) (xs @ y # z # ys) = xs @ y # ys"
  by (simp add: drop_nth_def)

lemma nth_append_Suc_length [simp]: "(xs @ y # z # ys) ! Suc (length xs) = z"
  by (simp add: nth_append)

lemma length_drop_nth: "n < length xs \<Longrightarrow> Suc (length (drop_nth n xs)) = length xs"
  by (simp add: drop_nth_def)

lemma exec_append:
  "exec \<sigma> (es @ es') = (case exec \<sigma> es of None \<Rightarrow> None | Some \<sigma>' \<Rightarrow> exec \<sigma>' es')"
  by (induction es arbitrary: \<sigma>) (simp_all split: option.splits)

lemma reachable_exec: "reachable \<sigma> \<Longrightarrow> exec \<sigma> es = Some \<sigma>' \<Longrightarrow> reachable \<sigma>'"
proof (induction es arbitrary: \<sigma>)
  case Nil
  then show ?case by simp
next
  case (Cons e es)
  then obtain \<sigma>1 where "step \<sigma> e = Some \<sigma>1" and "exec \<sigma>1 es = Some \<sigma>'"
    by (auto split: option.splits)
  with Cons show ?case by (blast intro: reachable.step)
qed

lemma reachable_iff_exec: "reachable \<sigma> \<longleftrightarrow> (\<exists>es. exec boot es = Some \<sigma>)"
proof
  assume "reachable \<sigma>"
  then show "\<exists>es. exec boot es = Some \<sigma>"
  proof (induction rule: reachable.induct)
    case boot
    have "exec boot [] = Some boot" by simp
    then show ?case by blast
  next
    case (step \<sigma> e \<sigma>')
    then obtain es where "exec boot es = Some \<sigma>" by blast
    with step.hyps(2) have "exec boot (es @ [e]) = Some \<sigma>'"
      by (simp add: exec_append)
    then show ?case by blast
  qed
next
  assume "\<exists>es. exec boot es = Some \<sigma>"
  then show "reachable \<sigma>" by (blast intro: reachable_exec reachable.boot)
qed


section \<open>A call followed at once by its response\<close>

text \<open>The asynchronous call that a user event makes on the handlers of a render.\<close>

fun call_of :: "dashboard \<Rightarrow> event \<Rightarrow> jsval task option" where
  "call_of s (Add food) = Some (handleAddFood s food)"
| "call_of s (Update patch) = Some (handleUpdateFood s patch)"
| "call_of s (Delete i) = Some (handleDeleteFood s i)"
| "call_of s e = None"

lemma step_call:
  "mounted \<sigma> \<Longrightarrow> call_of (ui \<sigma>) e = Some t \<Longrightarrow> step \<sigma> e = Some (launch t \<sigma>)"
  by (cases e) auto

lemma launch_ui:
  "ui (launch t \<sigma>) = (case sent t of None \<Rightarrow> commits (settle t r) (ui \<sigma>) | Some q \<Rightarrow> ui \<sigma>)"
  by (cases t) simp_all

lemma launch_fields:
  "inflight (launch t \<sigma>) = (case sent t of None \<Rightarrow> inflight \<sigma> | Some q \<Rightarrow> inflight \<sigma> @ [t])"
  "outbox (launch t \<sigma>) = (case sent t of None \<Rightarrow> outbox \<sigma> | Some q \<Rightarrow> outbox \<sigma> @ [q])"
  "mounted (launch t \<sigma>) = mounted \<sigma>"
  "fetching (launch t \<sigma>) = fetching \<sigma>"
  by (cases t; simp)+

lemma step_Settle_last:
  "step (\<sigma>\<lparr>inflight := inflight \<sigma> @ [t]\<rparr>) (Settle (length (inflight \<sigma>)) r)
     = Some (perform (settle t r) \<sigma>)"
  by (simp add: perform_def)

text \<open>The atomic reading \<open>run\<close> of a handler is what the event loop does when the
  request of a call settles before any other event.\<close>

lemma exec_call_settle:
  assumes "mounted \<sigma>" and "call_of (ui \<sigma>) e = Some t"
  shows "map_option (\<lambda>\<sigma>'. (ui \<sigma>', inflight \<sigma>'))
           (if sent t = None then step \<sigma> e
            else exec \<sigma> [e, Settle (length (inflight \<sigma>)) r])
         = Some (run (ui \<sigma>) t r, inflight \<sigma>)"
proof (cases t)
  case (Done es)
  with assms show ?thesis by (simp add: step_call)
next
  case (Await q k)
  have "launch t \<sigma> = (\<sigma>\<lparr>outbox := outbox \<sigma> @ [q]\<rparr>)\<lparr>inflight := inflight \<sigma> @ [t]\<rparr>"
    by (simp add: Await)
  then have "step (launch t \<sigma>) (Settle (length (inflight \<sigma>)) r)
      = Some (perform (settle t r) (\<sigma>\<lparr>outbox := outbox \<sigma> @ [q]\<rparr>))"
    using step_Settle_last [of "\<sigma>\<lparr>outbox := outbox \<sigma> @ [q]\<rparr>" t r] by simp
  with assms Await show ?thesis by (simp add: step_call run_def)
qed


section \<open>Overlapping requests\<close>

text \<open>C4. Two adds started from the same render, both answered with a truthy item:
  the second response overwrites the collection with the list its closure captured
  plus its own item, so the item of the first response is lost. Answered one after the
  other, with a render in between, both items are kept.\<close>

theorem overlapping_adds_lose_first:
  assumes "mounted \<sigma>" and "truthy d1" and "truthy d2"
  shows "map_option (\<lambda>\<sigma>'. foods (ui \<sigma>'))
           (exec \<sigma> [Add f1, Add f2, Settle (length (inflight \<sigma>)) (Resolved d1),
              Settle (length (inflight \<sigma>)) (Resolved d2)])
         = Some (foods (ui \<sigma>) @ [d2])
    \<and> map_option (\<lambda>\<sigma>'. foods (ui \<sigma>'))
           (exec \<sigma> [Add f1, Settle (length (inflight \<sigma>)) (Resolved d1), Add f2,
              Settle (length (inflight \<sigma>)) (Resolved d2)])
         = Some (foods (ui \<sigma>) @ [d1, d2])"
  using assms by (simp add: handleAddFood_def)

theorem overlapping_adds_lose_first_witness:
  "map_option (\<lambda>\<sigma>'. foods (ui \<sigma>'))
     (exec (boot\<lparr>mounted := True\<rparr>)
        [Add pizza, Add pasta, Settle 0 (Resolved pizza), Settle 0 (Resolved pasta)])
   = Some [pasta]
   \<and> map_option (\<lambda>\<sigma>'. foods (ui \<sigma>'))
     (exec (boot\<lparr>mounted := True\<rparr>)
        [Add pizza, Settle 0 (Resolved pizza), Add pasta, Settle 0 (Resolved pasta)])
   = Some [pizza, pasta]"
  using overlapping_adds_lose_first [of "boot\<lparr>mounted := True\<rparr>" pizza pasta pizza pasta]
  by (simp add: boot_def)

text \<open>C14. A delete that completes while an add is in flight is undone when the add
  is answered: the add's closure still holds the collection from before the delete,
  so the deleted item is back in the collection.\<close>

theorem late_add_undoes_delete:
  assumes "mounted \<sigma>" and "truthy d"
  shows "map_option (\<lambda>\<sigma>'. foods (ui \<sigma>'))
           (exec \<sigma> [Add f, Delete i, Settle (Suc (length (inflight \<sigma>))) (Resolved ok),
              Settle (length (inflight \<sigma>)) (Resolved d)])
         = Some (foods (ui \<sigma>) @ [d])"
  using assms by (simp add: handleAddFood_def handleDeleteFood_def)

theorem late_add_undoes_delete_witness:
  "map_option (\<lambda>\<sigma>'. foods (ui \<sigma>'))
     (exec (boot\<lparr>mounted := True, ui := menu\<rparr>)
        [Add pasta, Delete (JNum 1), Settle 1 (Resolved (Obj Map.empty)), Settle 0 (Resolved pizza25)])
   = Some [pizza, pasta, pizza25]"
  using late_add_undoes_delete
    [of "boot\<lparr>mounted := True, ui := menu\<rparr>" pizza25 pasta "JNum 1" "Obj Map.empty"]
  by (simp add: boot_def)

section \<open>Reachable states\<close>

text \<open>C33. Nothing excludes the two modals from being open together, nor the edit
  modal from being open over the empty editing slot: such a state is reachable, and an
  update submitted there is sent to the target \<^verbatim>\<open>undefined\<close>.\<close>

theorem both_modals_open_is_reachable:
  "\<exists>\<sigma>. reachable \<sigma> \<and> modalOpen (ui \<sigma>) \<and> editModalOpen (ui \<sigma>)
     \<and> editingFood (ui \<sigma>) = Obj Map.empty
     \<and> map_option outbox (step \<sigma> (Update patch))
         = Some [GetFoods, PutFood JUndefined (spread patch)]"
proof -
  let ?\<sigma> = "perform (toggleEditModal (ui (perform (toggleModal initial) (boot\<lparr>mounted := True,
      fetching := Some getFoods, outbox := [GetFoods]\<rparr>))))
    (perform (toggleModal initial) (boot\<lparr>mounted := True, fetching := Some getFoods,
      outbox := [GetFoods]\<rparr>))"
  have "exec boot [Mount, ToggleModal, ToggleEditModal] = Some ?\<sigma>"
    by (simp add: boot_def)
  then have "reachable ?\<sigma>"
    by (blast intro: reachable_exec reachable.boot)
  moreover have "modalOpen (ui ?\<sigma>)" "editModalOpen (ui ?\<sigma>)" "editingFood (ui ?\<sigma>) = Obj Map.empty"
    "map_option outbox (step ?\<sigma> (Update patch)) = Some [GetFoods, PutFood JUndefined (spread patch)]"
    by (simp_all add: boot_def toggleModal_def toggleEditModal_def handleUpdateFood_def)
  ultimately show ?thesis by blast
qed


section \<open>Invariants of the reachable states\<close>

text \<open>What one step does to the pending calls and to the requests sent.\<close>

definition is_call :: "jsval task \<Rightarrow> bool" where
  "is_call t \<longleftrightarrow> (\<exists>s e. call_of s e = Some t)"

lemma set_drop_nth: "set (drop_nth n xs) \<subseteq> set xs"
  by (auto simp: drop_nth_def dest: in_set_takeD in_set_dropD)

lemma inflight_launch: "set (inflight (launch t \<sigma>)) \<subseteq> insert t (set (inflight \<sigma>))"
  by (cases t) auto

lemma step_inflight:
  assumes "step \<sigma> e = Some \<sigma>'" and "t \<in> set (inflight \<sigma>')"
  shows "t \<in> set (inflight \<sigma>) \<or> call_of (ui \<sigma>) e = Some t"
proof (cases e)
  case (Settle n r)
  with assms show ?thesis
    using set_drop_nth [of n "inflight \<sigma>"] by (auto split: if_splits)
next
  case (SettleFetch r)
  with assms show ?thesis by (auto split: option.splits)
qed (use assms inflight_launch in \<open>auto split: if_splits\<close>)

lemma step_fetching:
  "step \<sigma> e = Some \<sigma>' \<Longrightarrow> fetching \<sigma>' \<in> {None, fetching \<sigma>, Some getFoods}"
  by (cases e) (auto simp: launch_fields split: if_splits option.splits)

lemma reachable_pending:
  "reachable \<sigma> \<Longrightarrow> list_all is_call (inflight \<sigma>) \<and> fetching \<sigma> \<in> {None, Some getFoods}"
proof (induction rule: reachable.induct)
  case boot
  show ?case by (simp add: boot_def)
next
  case (step \<sigma> e \<sigma>')
  have "is_call t" if "t \<in> set (inflight \<sigma>')" for t
    using step_inflight [OF step.hyps(2) that] step.IH
    by (auto simp: list_all_iff is_call_def)
  moreover have "fetching \<sigma>' \<in> {None, Some getFoods}"
    using step_fetching [OF step.hyps(2)] step.IH by auto
  ultimately show ?case by (simp add: list_all_iff)
qed

lemma is_call_only_foods: "is_call t \<Longrightarrow> list_all touches_only_foods (settle t r)"
proof -
  assume "is_call t"
  then obtain s e where "call_of s e = Some t" by (auto simp: is_call_def)
  then show ?thesis by (cases e) (auto simp: settle_only_foods)
qed

lemma perform_only_foods:
  "list_all touches_only_foods es \<Longrightarrow> ui (perform es \<sigma>) = (ui \<sigma>)\<lparr>foods := foods (ui (perform es \<sigma>))\<rparr>"
  using commits_only_foods [of es "ui \<sigma>"] by simp

text \<open>C25. In every reachable state, the settling of a request, whatever the response,
  changes at most the collection: the modal flags and the editing slot are only ever
  changed by the user's own actions.\<close>

theorem responses_change_only_foods:
  assumes "reachable \<sigma>" and "step \<sigma> e = Some \<sigma>'" and "e = Settle n r \<or> e = SettleFetch r'"
  shows "ui \<sigma>' = (ui \<sigma>)\<lparr>foods := foods (ui \<sigma>')\<rparr>"
proof -
  have pending: "list_all is_call (inflight \<sigma>)" "fetching \<sigma> \<in> {None, Some getFoods}"
    using reachable_pending [OF assms(1)] by simp_all
  from assms(3) show ?thesis
  proof
    assume e: "e = Settle n r"
    with assms(2) have n: "n < length (inflight \<sigma>)"
      and \<sigma>': "\<sigma>' = perform (settle (inflight \<sigma> ! n) r) (\<sigma>\<lparr>inflight := drop_nth n (inflight \<sigma>)\<rparr>)"
      by (auto split: if_splits)
    from n pending(1) have "is_call (inflight \<sigma> ! n)"
      by (simp add: list_all_length)
    then have "list_all touches_only_foods (settle (inflight \<sigma> ! n) r)"
      by (rule is_call_only_foods)
    then show ?thesis
      unfolding \<sigma>' using perform_only_foods by fastforce
  next
    assume e: "e = SettleFetch r'"
    with assms(2) pending(2) have \<sigma>': "\<sigma>' = perform (settle getFoods r') (\<sigma>\<lparr>fetching := None\<rparr>)"
      by (auto split: option.splits)
    show ?thesis
      unfolding \<sigma>' using perform_only_foods [OF settle_only_foods(1)] by fastforce
  qed
qed

theorem responses_change_only_foods_witness:
  "\<exists>\<sigma> \<sigma>'. exec boot [Mount, ToggleModal, Add pizza] = Some \<sigma>
     \<and> step \<sigma> (Settle 0 (Resolved pizza)) = Some \<sigma>'
     \<and> ui \<sigma>' = (ui \<sigma>)\<lparr>foods := [pizza]\<rparr> \<and> modalOpen (ui \<sigma>')"
proof -
  obtain \<sigma> where \<sigma>: "exec boot [Mount, ToggleModal, Add pizza] = Some \<sigma>"
    by (simp add: boot_def handleAddFood_def)
  then have r: "reachable \<sigma>" by (blast intro: reachable_exec reachable.boot)
  obtain \<sigma>' where \<sigma>': "step \<sigma> (Settle 0 (Resolved pizza)) = Some \<sigma>'"
    using \<sigma> by (auto simp: boot_def handleAddFood_def)
  from \<sigma> \<sigma>' have "foods (ui \<sigma>') = [pizza]" "modalOpen (ui \<sigma>')"
    by (auto simp: boot_def handleAddFood_def toggleModal_def)
  with responses_change_only_foods [OF r \<sigma>', of 0 "Resolved pizza"] \<sigma> \<sigma>'
  show ?thesis by auto
qed


text \<open>The requests a step sends.\<close>

definition request_of :: "dashboard \<Rightarrow> event \<Rightarrow> request list" where
  "request_of s e =
     (case e of
        Mount \<Rightarrow> [GetFoods]
      | _ \<Rightarrow> (case Option.bind (call_of s e) sent of None \<Rightarrow> [] | Some q \<Rightarrow> [q]))"

lemma step_outbox:
  "step \<sigma> e = Some \<sigma>' \<Longrightarrow> outbox \<sigma>' = outbox \<sigma> @ request_of (ui \<sigma>) e"
  by (cases e)
    (auto simp: request_of_def launch_fields split: if_splits option.splits)

lemma step_mounted:
  "step \<sigma> e = Some \<sigma>' \<Longrightarrow> mounted \<sigma> \<or> \<sigma> = boot \<Longrightarrow>
   mounted \<sigma>' \<and> (e = Mount \<longleftrightarrow> \<not> mounted \<sigma>)"
  by (cases e) (auto simp: launch_fields boot_def split: if_splits option.splits)

lemma call_never_fetches: "call_of s e = Some t \<Longrightarrow> sent t \<noteq> Some GetFoods"
  by (cases e) (auto simp: sent_handlers split: if_splits)

lemma count_request_of:
  "count_list (request_of s e) GetFoods = (if e = Mount then 1 else 0)"
  by (cases e) (auto simp: request_of_def sent_handlers split: option.splits)

lemma reachable_mounted_or_boot: "reachable \<sigma> \<Longrightarrow> mounted \<sigma> \<or> \<sigma> = boot"
  by (induction rule: reachable.induct) (auto dest: step_mounted)

text \<open>C26. The initial fetch is sent exactly once: in every reachable state the request
  \<^verbatim>\<open>GET /foods\<close> occurs once among the requests sent if the component is mounted, and
  the component that is not mounted has not done anything yet.\<close>

theorem fetch_sent_exactly_once:
  assumes "reachable \<sigma>"
  shows "count_list (outbox \<sigma>) GetFoods = (if mounted \<sigma> then 1 else 0)
    \<and> (if mounted \<sigma> then hd (outbox \<sigma>) = GetFoods else \<sigma> = boot)"
  using assms
proof (induction rule: reachable.induct)
  case boot
  show ?case by (simp add: boot_def)
next
  case (step \<sigma> e \<sigma>')
  note out = step_outbox [OF step.hyps(2)]
    and m = step_mounted [OF step.hyps(2) reachable_mounted_or_boot [OF step.hyps(1)]]
  show ?case
  proof (cases "mounted \<sigma>")
    case True
    with step.IH m have "outbox \<sigma> \<noteq> []" "e \<noteq> Mount" by auto
    with True step.IH out m show ?thesis by (simp add: count_request_of)
  next
    case False
    with step.hyps(1) have "\<sigma> = boot" by (auto dest: reachable_mounted_or_boot)
    with False out m show ?thesis by (simp add: boot_def request_of_def)
  qed
qed

theorem fetch_sent_exactly_once_witness:
  "\<exists>\<sigma>. exec boot [Mount, Add pizza, Delete (JNum 1)] = Some \<sigma>
     \<and> count_list (outbox \<sigma>) GetFoods = 1 \<and> hd (outbox \<sigma>) = GetFoods"
proof -
  obtain \<sigma> where \<sigma>: "exec boot [Mount, Add pizza, Delete (JNum 1)] = Some \<sigma>"
    by (simp add: boot_def handleAddFood_def handleDeleteFood_def)
  then have "reachable \<sigma>" by (blast intro: reachable_exec reachable.boot)
  from fetch_sent_exactly_once [OF this] \<sigma> show ?thesis
    by (auto simp: boot_def handleAddFood_def handleDeleteFood_def split: if_splits)
qed

section \<open>The last response wins\<close>

lemma exec_two_calls:
  assumes "mounted \<sigma>" and "call_of (ui \<sigma>) e1 = Some (Await q1 k1)"
    and "call_of (ui \<sigma>) e2 = Some (Await q2 k2)"
  shows "exec \<sigma> [e1, e2] = Some (\<sigma>\<lparr>inflight := inflight \<sigma> @ [Await q1 k1, Await q2 k2],
    outbox := outbox \<sigma> @ [q1, q2]\<rparr>)"
  using assms by (simp add: step_call)

text \<open>C10. Two calls made from the same render and both in flight: whichever is
  answered last decides the collection, and it decides it from the state in which
  both calls were made. If the last answer writes the collection, the collection is
  what that call alone would have produced and the write of the earlier answer is
  lost; if it does not (a rejection, a falsy body, a \<^verbatim>\<open>TypeError\<close>), the write of the
  earlier answer stays.\<close>

theorem last_response_wins:
  assumes "mounted \<sigma>" and "call_of (ui \<sigma>) e1 = Some t1" and "call_of (ui \<sigma>) e2 = Some t2"
    and "sent t1 \<noteq> None" and "sent t2 \<noteq> None"
  shows "map_option (\<lambda>\<sigma>'. foods (ui \<sigma>'))
           (exec \<sigma> [e1, e2, Settle (length (inflight \<sigma>)) r1, Settle (length (inflight \<sigma>)) r2])
         = Some (if sets_foods (settle t2 r2) then foods (run (ui \<sigma>) t2 r2)
                 else foods (run (ui \<sigma>) t1 r1))
    \<and> map_option (\<lambda>\<sigma>'. foods (ui \<sigma>'))
           (exec \<sigma> [e1, e2, Settle (Suc (length (inflight \<sigma>))) r2, Settle (length (inflight \<sigma>)) r1])
         = Some (if sets_foods (settle t1 r1) then foods (run (ui \<sigma>) t1 r1)
                 else foods (run (ui \<sigma>) t2 r2))"
proof -
  from assms(4,5) obtain q1 k1 q2 k2 where t: "t1 = Await q1 k1" "t2 = Await q2 k2"
    by (cases t1; cases t2) auto
  let ?\<sigma> = "\<sigma>\<lparr>inflight := inflight \<sigma> @ [t1, t2], outbox := outbox \<sigma> @ [q1, q2]\<rparr>"
  have two: "exec \<sigma> ([e1, e2] @ es) = exec ?\<sigma> es" for es
    using exec_two_calls [OF assms(1) assms(2,3) [unfolded t]]
    unfolding exec_append by (simp add: t)
  have "map_option (\<lambda>\<sigma>'. foods (ui \<sigma>'))
      (exec ?\<sigma> [Settle (length (inflight \<sigma>)) r1, Settle (length (inflight \<sigma>)) r2])
    = Some (foods (commits (settle t2 r2) (commits (settle t1 r1) (ui \<sigma>))))"
    by simp
  moreover have "map_option (\<lambda>\<sigma>'. foods (ui \<sigma>'))
      (exec ?\<sigma> [Settle (Suc (length (inflight \<sigma>))) r2, Settle (length (inflight \<sigma>)) r1])
    = Some (foods (commits (settle t1 r1) (commits (settle t2 r2) (ui \<sigma>))))"
    by simp
  ultimately show ?thesis
    using two [of "[Settle (length (inflight \<sigma>)) r1, Settle (length (inflight \<sigma>)) r2]"]
      two [of "[Settle (Suc (length (inflight \<sigma>))) r2, Settle (length (inflight \<sigma>)) r1]"]
      foods_commits [of "settle t2 r2" "commits (settle t1 r1) (ui \<sigma>)" "ui \<sigma>"]
      foods_commits [of "settle t1 r1" "commits (settle t2 r2) (ui \<sigma>)" "ui \<sigma>"]
      foods_commits [of "settle t2 r2" "ui \<sigma>" "ui \<sigma>"]
      foods_commits [of "settle t1 r1" "ui \<sigma>" "ui \<sigma>"]
    by (simp add: run_def split: if_splits)
qed

theorem last_response_wins_witness:
  "map_option (\<lambda>\<sigma>'. foods (ui \<sigma>'))
     (exec (boot\<lparr>mounted := True\<rparr>)
        [Add pizza, Delete (JNum 1), Settle 0 (Resolved pizza), Settle 0 (Resolved (Obj Map.empty))])
   = Some []
   \<and> map_option (\<lambda>\<sigma>'. foods (ui \<sigma>'))
     (exec (boot\<lparr>mounted := True\<rparr>)
        [Add pizza, Delete (JNum 1), Settle 1 (Resolved (Obj Map.empty)), Settle 0 (Resolved pizza)])
   = Some [pizza]"
  using last_response_wins [of "boot\<lparr>mounted := True\<rparr>" "Add pizza" "handleAddFood initial pizza"
      "Delete (JNum 1)" "handleDeleteFood initial (JNum 1)" "Resolved pizza" "Resolved (Obj Map.empty)"]
  by (simp add: boot_def sent_handlers settle_handlers run_def removed_def)

section \<open>Invariants of the collection\<close>

text \<open>A scheme for invariants of the collection that hold although stale closures
  write it: \<open>kept P\<close> says that \<open>P\<close> holds of the committed collection and of the
  collection every pending call captured. One step takes \<open>kept P\<close> to \<open>kept Q\<close> when
  \<open>Q\<close> is weaker than \<open>P\<close>, every answer to a call born under \<open>P\<close> writes a collection
  in \<open>Q\<close>, and the fetch delivers a collection in \<open>Q\<close>.\<close>

definition born :: "(jsval list \<Rightarrow> bool) \<Rightarrow> jsval task \<Rightarrow> bool" where
  "born P t \<longleftrightarrow> (\<exists>s e. P (foods s) \<and> call_of s e = Some t)"

definition kept :: "(jsval list \<Rightarrow> bool) \<Rightarrow> system \<Rightarrow> bool" where
  "kept P \<sigma> \<longleftrightarrow> P (foods (ui \<sigma>)) \<and> list_all (born P) (inflight \<sigma>)
     \<and> fetching \<sigma> \<in> {None, Some getFoods}"

lemma born_mono: "born P t \<Longrightarrow> (\<And>fs. P fs \<Longrightarrow> Q fs) \<Longrightarrow> born Q t"
  by (auto simp: born_def)

lemma call_Done: "call_of s e = Some (Done es) \<Longrightarrow> es = [ConsoleLog TypeError]"
  by (cases e) (auto simp: handleAddFood_def handleUpdateFood_def handleDeleteFood_def
      split: sum.splits dest: get_id_Raise_iff [THEN iffD1])

lemma kept_boot: "P [] \<Longrightarrow> kept P boot"
  by (simp add: kept_def boot_def)

lemma step_kept:
  assumes inv: "kept P \<sigma>" and st: "step \<sigma> e = Some \<sigma>'"
    and mono: "\<And>fs. P fs \<Longrightarrow> Q fs"
    and answer: "\<And>t s' n r. e = Settle n r \<Longrightarrow> born P t \<Longrightarrow> P (foods s')
      \<Longrightarrow> Q (foods (commits (settle t r) s'))"
    and fetch: "\<And>ds. e = SettleFetch (Resolved ds) \<Longrightarrow> Q ds"
  shows "kept Q \<sigma>'"
proof -
  from inv have P: "P (foods (ui \<sigma>))" and pend: "list_all (born P) (inflight \<sigma>)"
    and f: "fetching \<sigma> \<in> {None, Some getFoods}" by (simp_all add: kept_def)
  from pend mono have pendQ: "list_all (born Q) (inflight \<sigma>)"
    by (auto simp: list_all_iff intro: born_mono)
  have keep: "kept Q (perform es \<sigma>)" if "foods (commits es (ui \<sigma>)) = foods (ui \<sigma>)" for es
    using that P pendQ f mono by (simp add: kept_def)
  show ?thesis
  proof (cases "call_of (ui \<sigma>) e")
    case (Some t)
    with st have \<sigma>': "\<sigma>' = launch t \<sigma>" by (cases e) (auto split: if_splits)
    show ?thesis
    proof (cases t)
      case (Done es)
      with Some have "es = [ConsoleLog TypeError]" by (simp add: call_Done)
      with \<sigma>' Done keep [of es] show ?thesis by simp
    next
      case (Await q k)
      from P Some mono have "born Q t" by (auto simp: born_def)
      with \<sigma>' Await P pendQ f mono show ?thesis by (simp add: kept_def)
    qed
  next
    case None
    show ?thesis
    proof (cases e)
      case (Settle n r)
      with st have n: "n < length (inflight \<sigma>)"
        and \<sigma>': "\<sigma>' = perform (settle (inflight \<sigma> ! n) r) (\<sigma>\<lparr>inflight := drop_nth n (inflight \<sigma>)\<rparr>)"
        by (auto split: if_splits)
      from n pend have "born P (inflight \<sigma> ! n)" by (simp add: list_all_length)
      from answer [OF Settle this P] have "Q (foods (commits (settle (inflight \<sigma> ! n) r) (ui \<sigma>)))" .
      moreover from pendQ have "list_all (born Q) (drop_nth n (inflight \<sigma>))"
        using set_drop_nth [of n "inflight \<sigma>"] by (auto simp: list_all_iff)
      ultimately show ?thesis using f by (simp add: \<sigma>' kept_def)
    next
      case (SettleFetch r)
      with st f have \<sigma>': "\<sigma>' = perform (settle getFoods r) (\<sigma>\<lparr>fetching := None\<rparr>)"
        by (auto split: option.splits)
      have "Q (foods (commits (settle getFoods r) (ui \<sigma>)))"
        using fetch SettleFetch P mono by (cases r) (auto simp: settle_getFoods)
      with pendQ show ?thesis by (simp add: \<sigma>' kept_def)
    qed (use st None keep P pendQ f mono in
        \<open>auto simp: kept_def toggleModal_def toggleEditModal_def handleEditFood_def
          split: if_splits\<close>)
  qed
qed

section \<open>Provenance\<close>

text \<open>The items an event delivers to the component.\<close>

fun delivered :: "event \<Rightarrow> jsval list" where
  "delivered (SettleFetch (Resolved ds)) = ds"
| "delivered (Settle n (Resolved d)) = [d]"
| "delivered e = []"

lemma stale_settle_within:
  "set (foods (commits (settle (handleAddFood s c) r) s'))
     \<subseteq> set (foods s) \<union> set (foods s') \<union> set (delivered (Settle n r))"
  "set (foods (commits (settle (handleUpdateFood s c) r) s'))
     \<subseteq> set (foods s) \<union> set (foods s') \<union> set (delivered (Settle n r))"
  "set (foods (commits (settle (handleDeleteFood s i) r) s'))
     \<subseteq> set (foods s) \<union> set (foods s') \<union> set (delivered (Settle n r))"
  by (cases r; auto simp: settle_handlers dest: mem_replaced mem_removed)+

lemma born_within_settle:
  assumes "born (\<lambda>fs. set fs \<subseteq> D) t" and "set (foods s') \<subseteq> D"
  shows "set (foods (commits (settle t r) s')) \<subseteq> D \<union> set (delivered (Settle n r))"
proof -
  from assms(1) obtain s e where s: "set (foods s) \<subseteq> D" and e: "call_of s e = Some t"
    by (auto simp: born_def)
  have "set (foods (commits (settle t r) s'))
      \<subseteq> set (foods s) \<union> set (foods s') \<union> set (delivered (Settle n r))"
  proof (cases e)
    case (Add c)
    with e stale_settle_within(1) [of s c r s' n] show ?thesis by simp
  next
    case (Update c)
    with e stale_settle_within(2) [of s c r s' n] show ?thesis by simp
  next
    case (Delete i)
    with e stale_settle_within(3) [of s i r s' n] show ?thesis by simp
  qed (use e in simp_all)
  with s assms(2) show ?thesis by blast
qed

lemma exec_within:
  assumes "kept (\<lambda>fs. set fs \<subseteq> D) \<sigma>" and "exec \<sigma> es = Some \<sigma>'"
  shows "kept (\<lambda>fs. set fs \<subseteq> D \<union> set (concat (map delivered es))) \<sigma>'"
  using assms
proof (induction es arbitrary: \<sigma> D)
  case Nil
  then show ?case by simp
next
  case (Cons e es)
  then obtain \<sigma>1 where 1: "step \<sigma> e = Some \<sigma>1" and 2: "exec \<sigma>1 es = Some \<sigma>'"
    by (auto split: option.splits)
  have "kept (\<lambda>fs. set fs \<subseteq> D \<union> set (delivered e)) \<sigma>1"
    by (rule step_kept [OF Cons.prems(1) 1]) (auto dest: born_within_settle)
  from Cons.IH [OF this 2] show ?case by (simp add: Un_assoc)
qed

text \<open>C22. Provenance: in every state the component reaches, every item of the
  collection was delivered by a response, of the fetch or of a call. No handler, current
  or stale, invents an item or takes one from the candidate, the patch or the editing
  slot.\<close>

theorem collection_holds_only_delivered_items:
  assumes "exec boot es = Some \<sigma>"
  shows "set (foods (ui \<sigma>)) \<subseteq> set (concat (map delivered es))"
proof -
  have "kept (\<lambda>fs. set fs \<subseteq> {}) boot" by (simp add: kept_boot)
  from exec_within [OF this assms] show ?thesis by (simp add: kept_def)
qed

theorem collection_holds_only_delivered_items_witness:
  "\<exists>\<sigma>. exec boot [Mount, SettleFetch (Resolved [pasta]), Add pizza25, Settle 0 (Resolved pizza)]
       = Some \<sigma>
     \<and> foods (ui \<sigma>) = [pasta, pizza] \<and> set (foods (ui \<sigma>)) \<subseteq> {pasta, pizza}"
proof -
  obtain \<sigma> where \<sigma>: "exec boot
      [Mount, SettleFetch (Resolved [pasta]), Add pizza25, Settle 0 (Resolved pizza)] = Some \<sigma>"
    "foods (ui \<sigma>) = [pasta, pizza]"
    by (simp add: boot_def getFoods_def handleAddFood_def)
  from collection_holds_only_delivered_items [OF \<sigma>(1)] \<sigma> show ?thesis by auto
qed

section \<open>The modals and the editing slot over a sequence of events\<close>

text \<open>The specification of the three pieces of state that are not the collection
  (specification 4.1): the add-modal toggle flips the first flag, the edit-modal toggle
  flips the second, the begin of an edit stores the item and sets the second flag.
  No other event is mentioned: mounting, the three operations on the collection and
  the arrival of any response leave them alone.\<close>

fun ui_after :: "event list \<Rightarrow> bool \<times> bool \<times> jsval \<Rightarrow> bool \<times> bool \<times> jsval" where
  "ui_after [] u = u"
| "ui_after (ToggleModal # es) (a, b, f) = ui_after es (\<not> a, b, f)"
| "ui_after (ToggleEditModal # es) (a, b, f) = ui_after es (a, \<not> b, f)"
| "ui_after (Edit g # es) (a, b, f) = ui_after es (a, True, g)"
| "ui_after (e # es) u = ui_after es u"

definition controls :: "dashboard \<Rightarrow> bool \<times> bool \<times> jsval" where
  "controls s = (modalOpen s, editModalOpen s, editingFood s)"

lemma controls_only_foods:
  assumes "list_all touches_only_foods es"
  shows "controls (commits es s) = controls s"
proof -
  from commits_only_foods [OF assms, of s]
  have "controls (commits es s) = controls (s\<lparr>foods := foods (commits es s)\<rparr>)" by simp
  then show ?thesis by (simp add: controls_def)
qed

lemma controls_launch:
  "call_of (ui \<sigma>) e = Some t \<Longrightarrow> controls (ui (launch t \<sigma>)) = controls (ui \<sigma>)"
proof (cases t)
  case (Done es)
  assume "call_of (ui \<sigma>) e = Some t"
  with Done have "es = [ConsoleLog TypeError]" by (simp add: call_Done)
  with Done show ?thesis by (simp add: controls_def)
qed simp

lemma step_controls:
  assumes "reachable \<sigma>" and "step \<sigma> e = Some \<sigma>'"
  shows "controls (ui \<sigma>') = ui_after [e] (controls (ui \<sigma>))"
proof (cases "call_of (ui \<sigma>) e")
  case (Some t)
  with assms(2) have "\<sigma>' = launch t \<sigma>" by (cases e) (auto split: if_splits)
  moreover from Some have "ui_after [e] u = u" for u by (cases e; cases u) simp_all
  ultimately show ?thesis using controls_launch [OF Some] by simp
next
  case None
  show ?thesis
  proof (cases e)
    case (Settle n r)
    with assms(2) have n: "n < length (inflight \<sigma>)"
      and \<sigma>': "\<sigma>' = perform (settle (inflight \<sigma> ! n) r) (\<sigma>\<lparr>inflight := drop_nth n (inflight \<sigma>)\<rparr>)"
      by (auto split: if_splits)
    from n reachable_pending [OF assms(1)] have "is_call (inflight \<sigma> ! n)"
      by (simp add: list_all_length)
    then have "list_all touches_only_foods (settle (inflight \<sigma> ! n) r)"
      by (rule is_call_only_foods)
    with Settle show ?thesis by (simp add: \<sigma>' controls_only_foods)
  next
    case (SettleFetch r)
    with assms(2) reachable_pending [OF assms(1)]
    have \<sigma>': "\<sigma>' = perform (settle getFoods r) (\<sigma>\<lparr>fetching := None\<rparr>)"
      by (auto split: option.splits)
    with SettleFetch show ?thesis
      by (simp add: controls_only_foods settle_only_foods)
  qed (use assms(2) None in \<open>auto simp: controls_def toggleModal_def toggleEditModal_def
        handleEditFood_def split: if_splits\<close>)
qed

lemma ui_after_append: "ui_after (es @ es') u = ui_after es' (ui_after es u)"
  by (induction es u rule: ui_after.induct) simp_all

lemma exec_controls:
  assumes "reachable \<sigma>" and "exec \<sigma> es = Some \<sigma>'"
  shows "controls (ui \<sigma>') = ui_after es (controls (ui \<sigma>))"
  using assms
proof (induction es arbitrary: \<sigma>)
  case Nil
  then show ?case by simp
next
  case (Cons e es)
  then obtain \<sigma>1 where 1: "step \<sigma> e = Some \<sigma>1" and 2: "exec \<sigma>1 es = Some \<sigma>'"
    by (auto split: option.splits)
  from Cons.prems(1) 1 have "reachable \<sigma>1" by (rule reachable.step)
  from Cons.IH [OF this 2] step_controls [OF Cons.prems(1) 1] show ?case
    using ui_after_append [of "[e]" es] by simp
qed

text \<open>C24. The two modal flags and the editing slot are determined by the user events
  alone: after any sequence of events from the first render they are what the toggles
  and the begins of an edit in the sequence make them, in their order. No response, in
  whatever order it arrives, and no operation on the collection closes a modal or
  changes the slot; in particular the slot is never cleared, and it keeps the item as
  it was when the edit began even after that item has been updated or deleted.\<close>

theorem modals_and_slot_follow_user_events:
  assumes "exec boot es = Some \<sigma>"
  shows "(modalOpen (ui \<sigma>), editModalOpen (ui \<sigma>), editingFood (ui \<sigma>))
           = ui_after es (False, False, Obj Map.empty)"
proof -
  from exec_controls [OF reachable.boot assms] show ?thesis
    by (simp add: controls_def boot_def)
qed

theorem modals_and_slot_follow_user_events_witness:
  "\<exists>\<sigma>. exec boot [Mount, ToggleModal, Edit pizza, SettleFetch (Resolved [pasta]),
          Update pizza25, Settle 0 (Resolved pizza25), ToggleEditModal] = Some \<sigma>
     \<and> (modalOpen (ui \<sigma>), editModalOpen (ui \<sigma>), editingFood (ui \<sigma>)) = (True, False, pizza)"
proof -
  let ?es = "[Mount, ToggleModal, Edit pizza, SettleFetch (Resolved [pasta]),
    Update pizza25, Settle 0 (Resolved pizza25), ToggleEditModal]"
  obtain \<sigma> where \<sigma>: "exec boot ?es = Some \<sigma>"
    by (simp add: boot_def handler_defs get_id_def)
  from modals_and_slot_follow_user_events [OF \<sigma>] \<sigma> show ?thesis by simp
qed

end
