(* ===== verification/Render.thy ===== *)
theory Render
  imports Dashboard
begin

text \<open>
  The JSX that \<^verbatim>\<open>Dashboard\<close> returns (lines 98 to 125 of \<^verbatim>\<open>index.tsx\<close>), as a function
  from the state of a render to the props each child receives. The children
  themselves (\<^verbatim>\<open>Header\<close>, \<^verbatim>\<open>ModalAddFood\<close>, \<^verbatim>\<open>ModalEditFood\<close>, \<^verbatim>\<open>Food\<close>) are outside the
  sources; what matters here is what they are handed: the flags, the editing slot, one
  card per item keyed by its id, and the handlers, which are the closures of this
  render.

  The guard \<^verbatim>\<open>foods &&\<close> is always passed: \<open>foods\<close> is an array in this model and every
  array is truthy. Reading \<^verbatim>\<open>food.id\<close> for the key throws on an element that is \<^verbatim>\<open>null\<close>
  or \<^verbatim>\<open>undefined\<close>, and then the whole render throws.
\<close>

section \<open>Props\<close>

record header_props =
  openModal :: "effect list"

record modal_add_props =
  add_isOpen :: bool
  add_setIsOpen :: "effect list"
  add_submit :: "jsval \<Rightarrow> jsval task"

record modal_edit_props =
  edit_isOpen :: bool
  edit_setIsOpen :: "effect list"
  edit_editingFood :: jsval
  edit_submit :: "jsval \<Rightarrow> jsval task"

record food_props =
  card_key :: prim
  card_food :: jsval
  card_delete :: "prim \<Rightarrow> jsval task"
  card_edit :: "jsval \<Rightarrow> effect list"

record view =
  header :: header_props
  modal_add :: modal_add_props
  modal_edit :: modal_edit_props
  cards :: "food_props list"

section \<open>Render\<close>

text \<open>The callback of \<^verbatim>\<open>foods.map\<close> in the JSX: one \<^verbatim>\<open>Food\<close> element per item.\<close>

definition food_card :: "dashboard \<Rightarrow> jsval \<Rightarrow> (js_error, food_props) result" where
  "food_card s f =
     (case get_id f of
        Inl err \<Rightarrow> Raise err
      | Inr k \<Rightarrow> Return \<lparr>card_key = k, card_food = f,
          card_delete = handleDeleteFood s, card_edit = handleEditFood\<rparr>)"

definition render :: "dashboard \<Rightarrow> (js_error, view) result" where
  "render s =
     (case array_map (food_card s) (foods s) of
        Inl err \<Rightarrow> Raise err
      | Inr cs \<Rightarrow> Return
          \<lparr>header = \<lparr>openModal = toggleModal s\<rparr>,
           modal_add = \<lparr>add_isOpen = modalOpen s, add_setIsOpen = toggleModal s,
             add_submit = handleAddFood s\<rparr>,
           modal_edit = \<lparr>edit_isOpen = editModalOpen s, edit_setIsOpen = toggleEditModal s,
             edit_editingFood = editingFood s, edit_submit = handleUpdateFood s\<rparr>,
           cards = cs\<rparr>)"

section \<open>Lemmas\<close>

lemma food_card_readable:
  "\<not> nullish f \<Longrightarrow> food_card s f = Return \<lparr>card_key = id_of f, card_food = f,
     card_delete = handleDeleteFood s, card_edit = handleEditFood\<rparr>"
  by (simp add: food_card_def get_id_not_nullish)

lemma food_card_nullish: "nullish f \<Longrightarrow> food_card s f = Raise TypeError"
  by (simp add: food_card_def get_id_def)

lemma food_card_Raise: "food_card s f = Raise e \<Longrightarrow> e = TypeError"
  by (auto simp: food_card_def get_id_def split: if_splits)

lemma array_map_food_card:
  "array_map (food_card s) fs =
     (if readable fs
      then Return (map (\<lambda>f. \<lparr>card_key = id_of f, card_food = f,
        card_delete = handleDeleteFood s, card_edit = handleEditFood\<rparr>) fs)
      else Raise TypeError)"
proof (cases "readable fs")
  case True
  then show ?thesis
    by (auto simp: readable_iff food_card_readable intro!: array_map_total)
next
  case False
  then obtain f where "f \<in> set fs" "nullish f" by (auto simp: readable_iff)
  then have "array_map (food_card s) fs = Raise TypeError"
    by (intro array_map_uniform_error [of f]) (auto simp: food_card_nullish dest: food_card_Raise)
  with False show ?thesis by simp
qed

lemma render_readable:
  "readable (foods s) \<Longrightarrow> \<exists>v. render s = Return v
     \<and> map card_food (cards v) = foods s \<and> map card_key (cards v) = ids (foods s)
     \<and> add_isOpen (modal_add v) = modalOpen s \<and> edit_isOpen (modal_edit v) = editModalOpen s
     \<and> edit_editingFood (modal_edit v) = editingFood s"
  by (simp add: render_def array_map_food_card ids_def comp_def)

lemma render_unreadable: "\<not> readable (foods s) \<Longrightarrow> render s = Raise TypeError"
  by (simp add: render_def array_map_food_card)

text \<open>C27. A render succeeds exactly when \<^verbatim>\<open>.id\<close> can be read on every item of the
  collection, and throws a \<^verbatim>\<open>TypeError\<close> otherwise. A successful render shows the items
  in the order of the collection, keys each card by the id of its item, and hands the
  two flags and the editing slot to the modals unchanged.\<close>

theorem render_shows_collection:
  "(case render s of
      Inl err \<Rightarrow> err = TypeError \<and> \<not> readable (foods s)
    | Inr v \<Rightarrow> readable (foods s)
        \<and> map card_food (cards v) = foods s \<and> map card_key (cards v) = ids (foods s)
        \<and> add_isOpen (modal_add v) = modalOpen s \<and> edit_isOpen (modal_edit v) = editModalOpen s
        \<and> edit_editingFood (modal_edit v) = editingFood s)"
proof (cases "readable (foods s)")
  case True
  from render_readable [OF this] show ?thesis using True by auto
next
  case False
  then show ?thesis by (simp add: render_unreadable)
qed

text \<open>The handlers a view hands out are those of the render that produced it: they
  close over its state.\<close>

lemma render_callbacks:
  assumes "render s = Return v"
  shows "openModal (header v) = toggleModal s"
    and "add_setIsOpen (modal_add v) = toggleModal s"
    and "add_submit (modal_add v) = handleAddFood s"
    and "edit_setIsOpen (modal_edit v) = toggleEditModal s"
    and "edit_submit (modal_edit v) = handleUpdateFood s"
    and "c \<in> set (cards v) \<Longrightarrow> card_delete c = handleDeleteFood s \<and> card_edit c = handleEditFood"
  using assms by (auto simp: render_def array_map_food_card split: if_splits)

end
