(* ===== verification/Legacy.thy ===== *)
theory Legacy
  imports EventLoop Render
begin

text \<open>
  The former class component, which \<^verbatim>\<open>index.tsx\<close> keeps in comments (lines 129 to 242):
  the same dashboard written with \<^verbatim>\<open>this.state\<close> and \<^verbatim>\<open>this.setState\<close>. It is modelled on
  the types of the hook component, so that the two can be compared: the state is the
  record \<open>dashboard\<close>, and \<^verbatim>\<open>this.setState\<close> with an object literal, which merges the fields
  it names into the state, is one setter effect per field. A handler destructures
  \<^verbatim>\<open>this.state\<close> when it is called, before its \<^verbatim>\<open>await\<close>; the state \<open>s\<close> it is given is the
  state at the call.

  The class differs from the hook component in one place: its \<^verbatim>\<open>handleAddFood\<close> appends
  \<^verbatim>\<open>response.data\<close> without testing it. The theory shows that this is the only
  difference, that the two components behave alike on the event loop as long as no
  response carries falsy data, and what the missing test costs.
\<close>

section \<open>The class\<close>

definition class_initial :: dashboard where
  "class_initial = \<lparr>modalOpen = False, editModalOpen = False, foods = [],
     editingFood = Obj Map.empty\<rparr>"

definition componentDidMount :: "jsval list task" where
  "componentDidMount = Await GetFoods
     (\<lambda>response. case response of
        Rejected err \<Rightarrow> [Unhandled err]
      | Resolved d \<Rightarrow> [SetFoods d])"

definition class_handleAddFood :: "dashboard \<Rightarrow> jsval \<Rightarrow> jsval task" where
  "class_handleAddFood s food = Await (PostFood ((spread food)(''available'' \<mapsto> JBool True)))
     (\<lambda>response. case response of
        Rejected err \<Rightarrow> [ConsoleLog err]
      | Resolved d \<Rightarrow> [SetFoods (foods s @ [d])])"

definition class_handleUpdateFood :: "dashboard \<Rightarrow> jsval \<Rightarrow> jsval task" where
  "class_handleUpdateFood s food =
     (case get_id (editingFood s) of
        Inl err \<Rightarrow> Done [ConsoleLog err]
      | Inr i \<Rightarrow>
          Await (PutFood i (spread (editingFood s) ++ spread food))
            (\<lambda>foodUpdated. case foodUpdated of
               Rejected err \<Rightarrow> [ConsoleLog err]
             | Resolved d \<Rightarrow>
                 (case array_map (replace_food d) (foods s) of
                    Inl err \<Rightarrow> [ConsoleLog err]
                  | Inr foodsUpdated \<Rightarrow> [SetFoods foodsUpdated])))"

definition class_handleDeleteFood :: "dashboard \<Rightarrow> prim \<Rightarrow> jsval task" where
  "class_handleDeleteFood s i = Await (DeleteFood i)
     (\<lambda>response. case response of
        Rejected err \<Rightarrow> [Unhandled err]
      | Resolved d \<Rightarrow>
          (case array_filter (keep_food i) (foods s) of
             Inl err \<Rightarrow> [Unhandled err]
           | Inr foodsFiltered \<Rightarrow> [SetFoods foodsFiltered]))"

definition class_toggleModal :: "dashboard \<Rightarrow> effect list" where
  "class_toggleModal s = [SetModalOpen (\<not> modalOpen s)]"

definition class_toggleEditModal :: "dashboard \<Rightarrow> effect list" where
  "class_toggleEditModal s = [SetEditModalOpen (\<not> editModalOpen s)]"

definition class_handleEditFood :: "jsval \<Rightarrow> effect list" where
  "class_handleEditFood food = [SetEditingFood food, SetEditModalOpen True]"

text \<open>The method \<^verbatim>\<open>render\<close>: the same tree, with the methods of the instance as
  callbacks.\<close>

definition class_food_card :: "dashboard \<Rightarrow> jsval \<Rightarrow> (js_error, food_props) result" where
  "class_food_card s f =
     (case get_id f of
        Inl err \<Rightarrow> Raise err
      | Inr k \<Rightarrow> Return \<lparr>card_key = k, card_food = f,
          card_delete = class_handleDeleteFood s, card_edit = class_handleEditFood\<rparr>)"

definition class_render :: "dashboard \<Rightarrow> (js_error, view) result" where
  "class_render s =
     (case array_map (class_food_card s) (foods s) of
        Inl err \<Rightarrow> Raise err
      | Inr cs \<Rightarrow> Return
          \<lparr>header = \<lparr>openModal = class_toggleModal s\<rparr>,
           modal_add = \<lparr>add_isOpen = modalOpen s, add_setIsOpen = class_toggleModal s,
             add_submit = class_handleAddFood s\<rparr>,
           modal_edit = \<lparr>edit_isOpen = editModalOpen s, edit_setIsOpen = class_toggleEditModal s,
             edit_editingFood = editingFood s, edit_submit = class_handleUpdateFood s\<rparr>,
           cards = cs\<rparr>)"

section \<open>The class on the event loop\<close>

text \<open>The events are those of the hook component. A user event calls the method on the
  instance, which reads the committed state.\<close>

definition class_boot :: system where
  "class_boot = \<lparr>ui = class_initial, mounted = False, fetching = None, inflight = [],
     outbox = [], console = [], rejections = []\<rparr>"

fun class_step :: "system \<Rightarrow> event \<Rightarrow> system option" where
  "class_step \<sigma> Mount =
     (if mounted \<sigma> then None
      else Some (\<sigma>\<lparr>mounted := True, fetching := Some componentDidMount,
        outbox := outbox \<sigma> @ [GetFoods]\<rparr>))"
| "class_step \<sigma> (Add food) =
     (if mounted \<sigma> then Some (launch (class_handleAddFood (ui \<sigma>) food) \<sigma>) else None)"
| "class_step \<sigma> (Update patch) =
     (if mounted \<sigma> then Some (launch (class_handleUpdateFood (ui \<sigma>) patch) \<sigma>) else None)"
| "class_step \<sigma> (Delete i) =
     (if mounted \<sigma> then Some (launch (class_handleDeleteFood (ui \<sigma>) i) \<sigma>) else None)"
| "class_step \<sigma> ToggleModal =
     (if mounted \<sigma> then Some (perform (class_toggleModal (ui \<sigma>)) \<sigma>) else None)"
| "class_step \<sigma> ToggleEditModal =
     (if mounted \<sigma> then Some (perform (class_toggleEditModal (ui \<sigma>)) \<sigma>) else None)"
| "class_step \<sigma> (Edit food) =
     (if mounted \<sigma> then Some (perform (class_handleEditFood food) \<sigma>) else None)"
| "class_step \<sigma> (Settle n r) =
     (if n < length (inflight \<sigma>)
      then Some (perform (settle (inflight \<sigma> ! n) r) (\<sigma>\<lparr>inflight := drop_nth n (inflight \<sigma>)\<rparr>))
      else None)"
| "class_step \<sigma> (SettleFetch r) =
     (case fetching \<sigma> of
        None \<Rightarrow> None
      | Some t \<Rightarrow> Some (perform (settle t r) (\<sigma>\<lparr>fetching := None\<rparr>)))"

fun class_exec :: "system \<Rightarrow> event list \<Rightarrow> system option" where
  "class_exec \<sigma> [] = Some \<sigma>"
| "class_exec \<sigma> (e # es) = (case class_step \<sigma> e of None \<Rightarrow> None | Some \<sigma>' \<Rightarrow> class_exec \<sigma>' es)"

section \<open>Comparison with the hook component\<close>

text \<open>A response that the test \<^verbatim>\<open>if (response.data)\<close> of the hook component lets
  through: a rejection, or data that is truthy.\<close>

fun passes_guard :: "jsval response \<Rightarrow> bool" where
  "passes_guard (Resolved d) = truthy d"
| "passes_guard (Rejected err) = True"

fun guarded :: "event \<Rightarrow> bool" where
  "guarded (Settle n r) = passes_guard r"
| "guarded e = True"

text \<open>Two pending calls agree when they sent the same request and continue alike on
  every response that passes the guard.\<close>

definition agree :: "jsval task \<Rightarrow> jsval task \<Rightarrow> bool" where
  "agree t t' \<longleftrightarrow> sent t = sent t' \<and> (\<forall>r. passes_guard r \<longrightarrow> settle t r = settle t' r)"

definition sim :: "system \<Rightarrow> system \<Rightarrow> bool" where
  "sim \<sigma> \<sigma>' \<longleftrightarrow> ui \<sigma> = ui \<sigma>' \<and> mounted \<sigma> = mounted \<sigma>' \<and> fetching \<sigma> = fetching \<sigma>'
     \<and> list_all2 agree (inflight \<sigma>) (inflight \<sigma>') \<and> outbox \<sigma> = outbox \<sigma>'
     \<and> console \<sigma> = console \<sigma>' \<and> rejections \<sigma> = rejections \<sigma>'"

lemmas class_defs = class_initial_def componentDidMount_def class_handleAddFood_def
  class_handleUpdateFood_def class_handleDeleteFood_def class_toggleModal_def
  class_toggleEditModal_def class_handleEditFood_def

lemma class_same_handlers:
  "class_initial = initial" "componentDidMount = getFoods"
  "class_handleUpdateFood = handleUpdateFood" "class_handleDeleteFood = handleDeleteFood"
  "class_toggleModal = toggleModal" "class_toggleEditModal = toggleEditModal"
  "class_handleEditFood = handleEditFood"
  by (simp_all add: class_defs handler_defs initial_def fun_eq_iff)

lemma class_boot_eq: "class_boot = boot"
  by (simp add: class_boot_def boot_def class_same_handlers)

lemma settle_class_add:
  "settle (class_handleAddFood s food) r =
     (case r of Rejected err \<Rightarrow> [ConsoleLog err] | Resolved d \<Rightarrow> [SetFoods (foods s @ [d])])"
  by (simp add: class_handleAddFood_def)

lemma agree_refl [simp]: "agree t t"
  by (simp add: agree_def)

lemma agree_add [simp]: "agree (class_handleAddFood s food) (handleAddFood s food)"
proof -
  have "settle (class_handleAddFood s food) r = settle (handleAddFood s food) r"
    if "passes_guard r" for r
    using that by (cases r) (simp_all add: settle_class_add settle_add)
  then show ?thesis
    by (simp add: agree_def class_handleAddFood_def handleAddFood_def)
qed

lemma list_all2_drop_nth:
  "list_all2 P xs ys \<Longrightarrow> list_all2 P (drop_nth n xs) (drop_nth n ys)"
  by (simp add: drop_nth_def list_all2_appendI list_all2_takeI list_all2_dropI)

lemma sim_refl [simp]: "sim \<sigma> \<sigma>"
  by (simp add: sim_def list_all2_refl)

lemma sim_fields: "sim \<sigma> \<sigma>' \<Longrightarrow> ui \<sigma> = ui \<sigma>' \<and> mounted \<sigma> = mounted \<sigma>'"
  by (simp add: sim_def)

lemma sim_perform: "sim \<sigma> \<sigma>' \<Longrightarrow> sim (perform es \<sigma>) (perform es \<sigma>')"
  by (simp add: sim_def)

lemma sim_launch: "sim \<sigma> \<sigma>' \<Longrightarrow> agree t t' \<Longrightarrow> sim (launch t \<sigma>) (launch t' \<sigma>')"
proof (cases t; cases t')
  fix q k q' k'
  assume "sim \<sigma> \<sigma>'" "agree t t'" "t = Await q k" "t' = Await q' k'"
  then show ?thesis by (simp add: sim_def agree_def list_all2_appendI)
next
  fix es es'
  assume *: "sim \<sigma> \<sigma>'" "agree t t'" "t = Done es" "t' = Done es'"
  then have "es = es'" by (simp add: agree_def) (metis passes_guard.simps(2))
  with * show ?thesis by (simp add: sim_perform)
qed (simp_all add: agree_def)

lemma sim_step:
  assumes "sim \<sigma> \<sigma>'" and "guarded e"
  shows "rel_option sim (class_step \<sigma> e) (step \<sigma>' e)"
proof (cases e)
  case (Settle n r)
  from assms(1) have len: "length (inflight \<sigma>) = length (inflight \<sigma>')"
    by (auto simp: sim_def dest: list_all2_lengthD)
  show ?thesis
  proof (cases "n < length (inflight \<sigma>)")
    case True
    with assms(1) have "agree (inflight \<sigma> ! n) (inflight \<sigma>' ! n)"
      by (simp add: sim_def list_all2_nthD)
    with assms(2) Settle have "settle (inflight \<sigma> ! n) r = settle (inflight \<sigma>' ! n) r"
      by (simp add: agree_def)
    moreover from assms(1)
    have "sim (\<sigma>\<lparr>inflight := drop_nth n (inflight \<sigma>)\<rparr>) (\<sigma>'\<lparr>inflight := drop_nth n (inflight \<sigma>')\<rparr>)"
      by (simp add: sim_def list_all2_drop_nth)
    ultimately show ?thesis using Settle True len by (simp add: sim_perform)
  next
    case False
    with Settle len show ?thesis by simp
  qed
next
  case (SettleFetch r)
  from assms(1) have "fetching \<sigma> = fetching \<sigma>'" by (simp add: sim_def)
  moreover from assms(1) have "sim (\<sigma>\<lparr>fetching := None\<rparr>) (\<sigma>'\<lparr>fetching := None\<rparr>)"
    by (simp add: sim_def)
  ultimately show ?thesis using SettleFetch
    by (cases "fetching \<sigma>'") (simp_all add: sim_perform)
next
  case Mount
  with assms(1) show ?thesis by (simp add: sim_def class_same_handlers)
qed (use assms(1) sim_fields [OF assms(1)] in
      \<open>simp_all add: class_same_handlers sim_perform sim_launch\<close>)

lemma sim_exec:
  "sim \<sigma> \<sigma>' \<Longrightarrow> list_all guarded es \<Longrightarrow> rel_option sim (class_exec \<sigma> es) (exec \<sigma>' es)"
proof (induction es arbitrary: \<sigma> \<sigma>')
  case Nil
  then show ?case by simp
next
  case (Cons e es)
  then have "rel_option sim (class_step \<sigma> e) (step \<sigma>' e)" by (simp add: sim_step)
  with Cons show ?case
    by (cases "class_step \<sigma> e"; cases "step \<sigma>' e") simp_all
qed

lemma class_food_card_eq: "class_food_card = food_card"
  by (intro ext) (simp add: class_food_card_def food_card_def class_same_handlers split: sum.split)

lemma class_render_eq:
  "class_render s =
     map_sum id (\<lambda>v. v\<lparr>modal_add := (modal_add v)\<lparr>add_submit := class_handleAddFood s\<rparr>\<rparr>) (render s)"
  by (simp add: class_render_def render_def class_food_card_eq class_same_handlers
      split: sum.splits)

text \<open>C16. The class component and the hook component are the same program but for the
  test on \<^verbatim>\<open>response.data\<close>: the initial state, the fetch, update, delete, the toggles
  and the begin of an edit are equal; add sends the same request and continues alike
  on a rejection and on truthy data, and on falsy data the class appends the data
  where the hook component does nothing; the render differs only in the add callback
  it hands out.\<close>

theorem class_differs_only_in_add_guard:
  "class_initial = initial \<and> componentDidMount = getFoods
   \<and> class_handleUpdateFood = handleUpdateFood \<and> class_handleDeleteFood = handleDeleteFood
   \<and> class_toggleModal = toggleModal \<and> class_toggleEditModal = toggleEditModal
   \<and> class_handleEditFood = handleEditFood
   \<and> sent (class_handleAddFood s food) = sent (handleAddFood s food)
   \<and> settle (class_handleAddFood s food) r =
       (case r of
          Rejected err \<Rightarrow> settle (handleAddFood s food) r
        | Resolved d \<Rightarrow>
            if truthy d then settle (handleAddFood s food) r else [SetFoods (foods s @ [d])])
   \<and> class_render s =
       map_sum id (\<lambda>v. v\<lparr>modal_add := (modal_add v)\<lparr>add_submit := class_handleAddFood s\<rparr>\<rparr>)
         (render s)"
  by (simp add: class_same_handlers settle_class_add settle_add sent_handlers class_render_eq
      class_handleAddFood_def split: response.splits)

text \<open>C11. Simulation: on every sequence of events in which no response carries falsy
  data, the class component and the hook component accept the same events and reach
  states with the same committed state, the same requests sent, the same console
  output and the same escaped errors.\<close>

theorem class_behaves_as_hooks:
  assumes "list_all guarded es"
  shows "map_option (\<lambda>\<sigma>. (ui \<sigma>, mounted \<sigma>, outbox \<sigma>, console \<sigma>, rejections \<sigma>))
           (class_exec class_boot es)
         = map_option (\<lambda>\<sigma>. (ui \<sigma>, mounted \<sigma>, outbox \<sigma>, console \<sigma>, rejections \<sigma>))
           (exec boot es)"
proof -
  have "rel_option sim (class_exec class_boot es) (exec boot es)"
    using assms by (simp add: sim_exec class_boot_eq)
  then show ?thesis
    by (cases "class_exec class_boot es"; cases "exec boot es") (simp_all add: sim_def)
qed

theorem class_behaves_as_hooks_witness:
  "list_all guarded [Mount, SettleFetch (Resolved []), Add pizza, Settle 0 (Resolved pizza)]
   \<and> map_option (\<lambda>\<sigma>. (ui \<sigma>, mounted \<sigma>, outbox \<sigma>, console \<sigma>, rejections \<sigma>))
       (class_exec class_boot
          [Mount, SettleFetch (Resolved []), Add pizza, Settle 0 (Resolved pizza)])
     = Some (initial\<lparr>foods := [pizza]\<rparr>, True,
         [GetFoods, PostFood ((spread pizza)(''available'' \<mapsto> JBool True))], [], [])"
proof -
  let ?es = "[Mount, SettleFetch (Resolved []), Add pizza, Settle 0 (Resolved pizza)]"
  have g: "list_all guarded ?es" by simp
  have "map_option (\<lambda>\<sigma>. (ui \<sigma>, mounted \<sigma>, outbox \<sigma>, console \<sigma>, rejections \<sigma>)) (exec boot ?es)
      = Some (initial\<lparr>foods := [pizza]\<rparr>, True,
         [GetFoods, PostFood ((spread pizza)(''available'' \<mapsto> JBool True))], [], [])"
    by (simp add: boot_def getFoods_def handleAddFood_def List.map_filter_simps)
  with class_behaves_as_hooks [OF g] g show ?thesis by simp
qed

end
