(* ===== verification/Typed.thy ===== *)
theory Typed
  imports Dashboard
begin

text \<open>
  The typed view of the items. \<^verbatim>\<open>index.tsx\<close> declares the interface \<^verbatim>\<open>FoodProps\<close> (lines 20
  to 27) and gives the collection the type \<^verbatim>\<open>FoodProps[]\<close>, but the types are erased
  at run time and nothing checks what the server sends. \<open>encode\<close> is the object a
  \<^verbatim>\<open>FoodProps\<close> is at run time. On a collection of encoded items the handlers compute
  the list operations of the specification and no \<^verbatim>\<open>TypeError\<close> path is taken.
\<close>

section \<open>The interface\<close>

record FoodProps =
  food_id :: rat
  food_name :: string
  food_description :: string
  food_price :: rat
  food_available :: bool
  food_image :: string

definition encode :: "FoodProps \<Rightarrow> jsval" where
  "encode f = Obj [''id'' \<mapsto> JNum (food_id f), ''name'' \<mapsto> JStr (food_name f),
     ''description'' \<mapsto> JStr (food_description f), ''price'' \<mapsto> JNum (food_price f),
     ''available'' \<mapsto> JBool (food_available f), ''image'' \<mapsto> JStr (food_image f)]"

section \<open>The list operations of the specification\<close>

definition add_item :: "FoodProps list \<Rightarrow> FoodProps \<Rightarrow> FoodProps list" where
  "add_item fs f = fs @ [f]"

definition update_item :: "FoodProps list \<Rightarrow> FoodProps \<Rightarrow> FoodProps list" where
  "update_item fs u = map (\<lambda>f. if food_id f = food_id u then u else f) fs"

definition delete_item :: "FoodProps list \<Rightarrow> rat \<Rightarrow> FoodProps list" where
  "delete_item fs i = filter (\<lambda>f. food_id f \<noteq> i) fs"

section \<open>Encoded items\<close>

lemma encode_fields [simp]:
  "id_of (encode f) = JNum (food_id f)"
  "\<not> nullish (encode f)"
  "truthy (encode f)"
  by (simp_all add: encode_def)

lemma readable_encoded [simp]: "readable (map encode fs)"
  by (simp add: readable_iff)

lemma ids_encoded: "ids (map encode fs) = map (\<lambda>f. JNum (food_id f)) fs"
  by (simp add: ids_def)

lemma replaced_encoded: "replaced (encode u) (map encode fs) = map encode (update_item fs u)"
  by (simp add: replaced_def update_item_def)

lemma removed_encoded: "removed (JNum i) (map encode fs) = map encode (delete_item fs i)"
  by (simp add: removed_def delete_item_def filter_map comp_def)

section \<open>Example data\<close>

definition margherita :: FoodProps where
  "margherita = \<lparr>food_id = 1, food_name = ''Margherita'', food_description = ''Tomato, mozzarella'',
     food_price = 20, food_available = True, food_image = ''margherita.png''\<rparr>"

definition carbonara :: FoodProps where
  "carbonara = \<lparr>food_id = 2, food_name = ''Carbonara'', food_description = ''Egg, guanciale'',
     food_price = 15, food_available = True, food_image = ''carbonara.png''\<rparr>"

section \<open>Properties\<close>

text \<open>C17. Refinement of the list operations of the specification: on a collection of
  encoded items, and a response that carries an encoded item, add, update and delete
  write the encoding of \<open>add_item\<close>, \<open>update_item\<close> and \<open>delete_item\<close>, and nothing
  is logged or thrown.\<close>

theorem typed_handlers_refine_list_operations:
  assumes "foods s = map encode fs" and "\<not> nullish (editingFood s)"
  shows "settle (handleAddFood s food) (Resolved (encode f))
           = [SetFoods (map encode (add_item fs f))]
       \<and> settle (handleUpdateFood s patch) (Resolved (encode u))
           = [SetFoods (map encode (update_item fs u))]
       \<and> settle (handleDeleteFood s (JNum i)) (Resolved d)
           = [SetFoods (map encode (delete_item fs i))]"
  using assms
  by (simp add: settle_handlers replaced_encoded removed_encoded add_item_def)

theorem typed_handlers_refine_list_operations_witness:
  "settle (handleAddFood (initial\<lparr>foods := map encode [margherita]\<rparr>) pasta)
     (Resolved (encode carbonara)) = [SetFoods (map encode [margherita, carbonara])]
   \<and> settle (handleUpdateFood (initial\<lparr>foods := map encode [margherita]\<rparr>) pizza25)
     (Resolved (encode (margherita\<lparr>food_price := 25\<rparr>)))
     = [SetFoods (map encode [margherita\<lparr>food_price := 25\<rparr>])]
   \<and> settle (handleDeleteFood (initial\<lparr>foods := map encode [margherita]\<rparr>) (JNum 1))
     (Resolved (Obj Map.empty)) = [SetFoods []]"
  using typed_handlers_refine_list_operations
    [of "initial\<lparr>foods := map encode [margherita]\<rparr>" "[margherita]" pasta carbonara pizza25
      "margherita\<lparr>food_price := 25\<rparr>" 1 "Obj Map.empty"]
  by (simp add: add_item_def update_item_def delete_item_def margherita_def)

end
