(* ===== verification/Server.thy ===== *)
theory Server
  imports Api
begin

text \<open>
  The remote store, from the contract the specification gives for it: \<^verbatim>\<open>GET /foods\<close>
  answers with the sequence of items, \<^verbatim>\<open>POST /foods\<close> creates an item and assigns its
  id, \<^verbatim>\<open>PUT /foods/{id}\<close> answers with the updated item, \<^verbatim>\<open>DELETE /foods/{id}\<close> removes
  it. The server is not part of the sources: this is a reference store that meets the
  contract, against which the component is run in theory \<open>Sync\<close>. It keeps its rows in
  insertion order under ids it assigns from a counter, keeps the id of a row when
  the row is replaced, and rejects with status 404 a request on an id it does not
  hold.
\<close>

section \<open>State\<close>

record server =
  rows :: "(nat \<times> obj) list"
  next_id :: nat

definition empty_server :: server where
  "empty_server = \<lparr>rows = [], next_id = 1\<rparr>"

text \<open>The item served for a row: the stored fields with the id of the row.\<close>

definition item :: "nat \<times> obj \<Rightarrow> jsval" where
  "item row = Obj ((snd row)(''id'' \<mapsto> JNum (of_nat (fst row))))"

definition has_id :: "prim \<Rightarrow> nat \<times> obj \<Rightarrow> bool" where
  "has_id i row \<longleftrightarrow> i = JNum (of_nat (fst row))"

section \<open>The four calls\<close>

definition get_foods :: "server \<Rightarrow> jsval list response" where
  "get_foods srv = Resolved (map item (rows srv))"

definition post_food :: "server \<Rightarrow> obj \<Rightarrow> server \<times> jsval response" where
  "post_food srv b =
     (srv\<lparr>rows := rows srv @ [(next_id srv, b)], next_id := Suc (next_id srv)\<rparr>,
      Resolved (item (next_id srv, b)))"

definition put_food :: "server \<Rightarrow> prim \<Rightarrow> obj \<Rightarrow> server \<times> jsval response" where
  "put_food srv i b =
     (if list_ex (has_id i) (rows srv)
      then (srv\<lparr>rows := map (\<lambda>row. if has_id i row then (fst row, b) else row) (rows srv)\<rparr>,
            Resolved (Obj (b(''id'' \<mapsto> i))))
      else (srv, Rejected (AxiosError (Some 404))))"

definition delete_food :: "server \<Rightarrow> prim \<Rightarrow> server \<times> jsval response" where
  "delete_food srv i =
     (if list_ex (has_id i) (rows srv)
      then (srv\<lparr>rows := filter (\<lambda>row. \<not> has_id i row) (rows srv)\<rparr>, Resolved (Obj Map.empty))
      else (srv, Rejected (AxiosError (Some 404))))"

text \<open>The answer to a request of a handler. The collection is fetched with
  \<open>get_foods\<close>, whose answer is a list; on this channel a \<open>GetFoods\<close> is answered with
  status 405.\<close>

fun serve :: "server \<Rightarrow> request \<Rightarrow> server \<times> jsval response" where
  "serve srv (PostFood b) = post_food srv b"
| "serve srv (PutFood i b) = put_food srv i b"
| "serve srv (DeleteFood i) = delete_food srv i"
| "serve srv GetFoods = (srv, Rejected (AxiosError (Some 405)))"

section \<open>Well-formed stores\<close>

text \<open>Ids are unique and below the counter, so the next id assigned is fresh.\<close>

definition wf_server :: "server \<Rightarrow> bool" where
  "wf_server srv \<longleftrightarrow> distinct (map fst (rows srv)) \<and> list_all (\<lambda>row. fst row < next_id srv) (rows srv)"

lemmas server_defs = get_foods_def post_food_def put_food_def delete_food_def

lemma wf_empty_server [simp]: "wf_server empty_server"
  by (simp add: wf_server_def empty_server_def)

lemma id_of_item [simp]: "id_of (item row) = JNum (of_nat (fst row))"
  by (simp add: item_def)

lemma item_not_nullish [simp]: "\<not> nullish (item row)" "truthy (item row)"
  by (simp_all add: item_def)

lemma has_id_iff: "has_id i row \<longleftrightarrow> id_of (item row) = i"
  by (auto simp: has_id_def)

lemma has_id_unique: "has_id i row \<Longrightarrow> has_id i row' \<Longrightarrow> fst row = fst row'"
  by (simp add: has_id_def)

lemma item_replaced: "has_id i row \<Longrightarrow> item (fst row, b) = Obj (b(''id'' \<mapsto> i))"
  by (simp add: item_def has_id_def)

lemma fst_replace: "fst \<circ> (\<lambda>row. if P row then (fst row, b) else row) = fst"
  by (simp add: fun_eq_iff)

lemma wf_post_food: "wf_server srv \<Longrightarrow> wf_server (fst (post_food srv b))"
  by (auto simp: wf_server_def post_food_def list_all_iff less_Suc_eq)

lemma wf_put_food: "wf_server srv \<Longrightarrow> wf_server (fst (put_food srv i b))"
  by (auto simp: wf_server_def put_food_def fst_replace list_all_iff)

lemma wf_delete_food: "wf_server srv \<Longrightarrow> wf_server (fst (delete_food srv i))"
  by (auto simp: wf_server_def delete_food_def distinct_map_filter list_all_iff)

lemma wf_serve: "wf_server srv \<Longrightarrow> wf_server (fst (serve srv q))"
  by (cases q) (simp_all add: wf_post_food wf_put_food wf_delete_food)

lemma distinct_item_ids: "wf_server srv \<Longrightarrow> distinct (map (\<lambda>row. id_of (item row)) (rows srv))"
proof -
  assume "wf_server srv"
  then have "distinct (map fst (rows srv))" by (simp add: wf_server_def)
  then have "distinct (map ((\<lambda>k. JNum (of_nat k)) \<circ> fst) (rows srv))"
    unfolding map_map [symmetric] by (simp add: distinct_map inj_on_def)
  then show ?thesis by (simp add: comp_def)
qed

end
