(* ===== verification/Sync.thy ===== *)
theory Sync
  imports EventLoop Server
begin

text \<open>
  The Dashboard run against the reference store of theory \<open>Server\<close>. A world is the
  component on its event loop, the store, and the answers that are on their way. The
  store serves a request when it is sent; its answer is delivered later, at any time
  and in any order. In a sequential session every answer is delivered before the
  next user event, which is the use the specification has in mind (on success, update
  local state to match); the theory shows that then the local collection is the
  remote one after every operation, and that overlapping requests break this.
\<close>

section \<open>Worlds\<close>

record world =
  client :: system
  remote :: server
  replies :: "jsval response list"
  fetched :: "jsval list response option"

definition start :: "server \<Rightarrow> world" where
  "start srv = \<lparr>client = boot, remote = srv, replies = [], fetched = None\<rparr>"

datatype wevent = User event | Deliver nat | DeliverFetch

text \<open>A user event runs on the component; the request it sends, if any, is served at
  once and the answer is queued behind the answers already under way, so that answer
  \<open>n\<close> belongs to the call in flight \<open>n\<close>. The settling of a request is not a user
  event: it happens by delivery.\<close>

fun wstep :: "world \<Rightarrow> wevent \<Rightarrow> world option" where
  "wstep w (User (Settle n r)) = None"
| "wstep w (User (SettleFetch r)) = None"
| "wstep w (User Mount) =
     (case step (client w) Mount of
        None \<Rightarrow> None
      | Some \<sigma> \<Rightarrow> Some (w\<lparr>client := \<sigma>, fetched := Some (get_foods (remote w))\<rparr>))"
| "wstep w (User e) =
     (case step (client w) e of
        None \<Rightarrow> None
      | Some \<sigma> \<Rightarrow>
          (case Option.bind (call_of (ui (client w)) e) sent of
             None \<Rightarrow> Some (w\<lparr>client := \<sigma>\<rparr>)
           | Some q \<Rightarrow> Some (w\<lparr>client := \<sigma>, remote := fst (serve (remote w) q),
               replies := replies w @ [snd (serve (remote w) q)]\<rparr>)))"
| "wstep w (Deliver n) =
     (if n < length (replies w)
      then (case step (client w) (Settle n (replies w ! n)) of
              None \<Rightarrow> None
            | Some \<sigma> \<Rightarrow> Some (w\<lparr>client := \<sigma>, replies := drop_nth n (replies w)\<rparr>))
      else None)"
| "wstep w DeliverFetch =
     (case fetched w of
        None \<Rightarrow> None
      | Some r \<Rightarrow>
          (case step (client w) (SettleFetch r) of
             None \<Rightarrow> None
           | Some \<sigma> \<Rightarrow> Some (w\<lparr>client := \<sigma>, fetched := None\<rparr>)))"

fun wexec :: "world \<Rightarrow> wevent list \<Rightarrow> world option" where
  "wexec w [] = Some w"
| "wexec w (e # es) = (case wstep w e of None \<Rightarrow> None | Some w' \<Rightarrow> wexec w' es)"

section \<open>Sequential sessions\<close>

text \<open>A user event followed by the delivery of the answer it caused, if it caused
  one.\<close>

definition sequential :: "world \<Rightarrow> event \<Rightarrow> world option" where
  "sequential w e =
     (case wstep w (User e) of
        None \<Rightarrow> None
      | Some w' \<Rightarrow>
          if fetched w' \<noteq> None then wstep w' DeliverFetch
          else if replies w' \<noteq> [] then wstep w' (Deliver 0)
          else Some w')"

fun session :: "world \<Rightarrow> event list \<Rightarrow> world option" where
  "session w [] = Some w"
| "session w (e # es) = (case sequential w e of None \<Rightarrow> None | Some w' \<Rightarrow> session w' es)"

text \<open>The actions of a user on a mounted component.\<close>

fun action :: "event \<Rightarrow> bool" where
  "action Mount = False"
| "action (Settle n r) = False"
| "action (SettleFetch r) = False"
| "action e = True"

section \<open>Agreement of the local and the remote collection\<close>

definition in_sync :: "world \<Rightarrow> bool" where
  "in_sync w \<longleftrightarrow> foods (ui (client w)) = map item (rows (remote w))"

text \<open>Nothing is under way.\<close>

definition quiet :: "world \<Rightarrow> bool" where
  "quiet w \<longleftrightarrow> replies w = [] \<and> fetched w = None \<and> inflight (client w) = []
     \<and> fetching (client w) = None"

definition settled :: "world \<Rightarrow> bool" where
  "settled w \<longleftrightarrow> mounted (client w) \<and> quiet w \<and> in_sync w \<and> wf_server (remote w)"

lemma readable_items [simp]: "readable (map item rs)"
  by (simp add: readable_iff)

lemma ids_items: "ids (map item rs) = map (\<lambda>row. JNum (of_nat (fst row))) rs"
  by (simp add: ids_def)

lemma unique_ids_items: "wf_server srv \<Longrightarrow> unique_ids (map item (rows srv))"
  using distinct_item_ids [of srv] by (simp add: unique_ids_def ids_def comp_def)

text \<open>What the store does to its rows is what the handlers do to the collection.\<close>

lemma replaced_items:
  "replaced (Obj (b(''id'' \<mapsto> i))) (map item rs)
     = map item (map (\<lambda>row. if has_id i row then (fst row, b) else row) rs)"
  by (auto simp: replaced_def has_id_def item_def)

lemma removed_items: "removed i (map item rs) = map item (filter (\<lambda>row. \<not> has_id i row) rs)"
  by (simp add: removed_def filter_map comp_def has_id_iff)

lemma sync_add:
  assumes "foods s = map item (rows srv)"
  shows "foods (run s (handleAddFood s c) (snd (post_food srv b))) = map item (rows (fst (post_food srv b)))"
  using assms by (simp add: run_def settle_add post_food_def)

lemma sync_update:
  assumes "foods s = map item (rows srv)" and "\<not> nullish (editingFood s)"
  shows "foods (run s (handleUpdateFood s c) (snd (put_food srv i b))) = map item (rows (fst (put_food srv i b)))"
  using assms by (simp add: run_def settle_update put_food_def replaced_items)

lemma sync_delete:
  assumes "foods s = map item (rows srv)"
  shows "foods (run s (handleDeleteFood s i) (snd (delete_food srv i))) = map item (rows (fst (delete_food srv i)))"
  using assms by (simp add: run_def settle_delete delete_food_def removed_items)

lemma sync_call:
  assumes "foods s = map item (rows srv)" and "call_of s e = Some t" and "sent t = Some q"
  shows "foods (run s t (snd (serve srv q))) = map item (rows (fst (serve srv q)))"
proof (cases e)
  case (Add c)
  with assms show ?thesis by (auto simp: sent_handlers sync_add)
next
  case (Update c)
  with assms show ?thesis by (auto simp: sent_handlers sync_update split: if_splits)
next
  case (Delete i)
  with assms show ?thesis by (auto simp: sent_handlers sync_delete)
qed (use assms in simp_all)

section \<open>One sequential operation\<close>

lemma wstep_call:
  assumes "mounted (client w)" and "call_of (ui (client w)) e = Some t" and "sent t = Some q"
  shows "wstep w (User e) = Some (w\<lparr>client := launch t (client w),
    remote := fst (serve (remote w) q), replies := replies w @ [snd (serve (remote w) q)]\<rparr>)"
  using assms by (cases e) (simp_all add: step_call)

lemma wstep_local:
  assumes "mounted (client w)" and "action e" and "Option.bind (call_of (ui (client w)) e) sent = None"
  shows "\<exists>es. wstep w (User e) = Some (w\<lparr>client := perform es (client w)\<rparr>)
    \<and> foods (commits es (ui (client w))) = foods (ui (client w))"
proof (cases e)
  case (Update c)
  with assms(3) have "handleUpdateFood (ui (client w)) c = Done [ConsoleLog TypeError]"
    by (auto simp: handleUpdateFood_def get_id_def sent_handlers split: if_splits)
  with assms(1) Update show ?thesis by (intro exI [of _ "[ConsoleLog TypeError]"]) simp
next
  case ToggleModal
  with assms(1) show ?thesis
    by (intro exI [of _ "toggleModal (ui (client w))"]) (simp add: toggleModal_def)
next
  case ToggleEditModal
  with assms(1) show ?thesis
    by (intro exI [of _ "toggleEditModal (ui (client w))"]) (simp add: toggleEditModal_def)
next
  case (Edit f)
  with assms(1) show ?thesis
    by (intro exI [of _ "handleEditFood f"]) (simp add: handleEditFood_def)
qed (use assms in \<open>simp_all add: sent_handlers\<close>)

lemma sequential_call:
  assumes "mounted (client w)" and "quiet w"
    and "call_of (ui (client w)) e = Some t" and "sent t = Some q"
  shows "\<exists>w'. sequential w e = Some w'
    \<and> ui (client w') = run (ui (client w)) t (snd (serve (remote w) q))
    \<and> remote w' = fst (serve (remote w) q) \<and> quiet w' \<and> mounted (client w')
    \<and> outbox (client w') = outbox (client w) @ [q]"
proof -
  from assms(4) obtain k where t: "t = Await q k" by (cases t) simp_all
  let ?r = "snd (serve (remote w) q)"
  let ?w = "w\<lparr>client := launch t (client w), remote := fst (serve (remote w) q),
    replies := replies w @ [?r]\<rparr>"
  from assms(2) have "step (launch t (client w)) (Settle 0 ?r)
      = Some (perform (settle t ?r) ((client w)\<lparr>outbox := outbox (client w) @ [q]\<rparr>))"
    using step_Settle_last [of "(client w)\<lparr>outbox := outbox (client w) @ [q]\<rparr>" t ?r]
    by (simp add: t quiet_def)
  with assms(2) have "sequential w e = Some (?w\<lparr>client :=
      perform (settle t ?r) ((client w)\<lparr>outbox := outbox (client w) @ [q]\<rparr>), replies := []\<rparr>)"
    by (simp add: sequential_def wstep_call [OF assms(1,3,4)] quiet_def)
  with assms(1,2) show ?thesis by (simp add: quiet_def run_def)
qed

lemma sequential_local:
  assumes "mounted (client w)" and "quiet w" and "action e"
    and "Option.bind (call_of (ui (client w)) e) sent = None"
  shows "\<exists>w'. sequential w e = Some w' \<and> foods (ui (client w')) = foods (ui (client w))
    \<and> remote w' = remote w \<and> quiet w' \<and> mounted (client w')
    \<and> outbox (client w') = outbox (client w)"
proof -
  from wstep_local [OF assms(1,3,4)] obtain es
    where "wstep w (User e) = Some (w\<lparr>client := perform es (client w)\<rparr>)"
      and "foods (commits es (ui (client w))) = foods (ui (client w))" by blast
  with assms(1,2) show ?thesis by (simp add: sequential_def quiet_def)
qed

lemma sequential_settled:
  assumes "settled w" and "action e"
  shows "\<exists>w'. sequential w e = Some w' \<and> settled w'"
proof (cases "Option.bind (call_of (ui (client w)) e) sent")
  case None
  with sequential_local [of w e] assms show ?thesis
    by (auto simp: settled_def in_sync_def)
next
  case (Some q)
  then obtain t where t: "call_of (ui (client w)) e = Some t" "sent t = Some q"
    by (auto simp: bind_eq_Some_conv)
  from assms(1) have "foods (ui (client w)) = map item (rows (remote w))"
    by (simp add: settled_def in_sync_def)
  from sync_call [OF this t] sequential_call [OF _ _ t] assms(1) show ?thesis
    by (auto simp: settled_def in_sync_def wf_serve)
qed

lemma sequential_Mount:
  assumes "wf_server srv"
  shows "\<exists>w. sequential (start srv) Mount = Some w \<and> settled w \<and> remote w = srv
    \<and> outbox (client w) = [GetFoods]"
  using assms
  by (simp add: sequential_def start_def boot_def settled_def quiet_def in_sync_def
      get_foods_def getFoods_def)

lemma session_settled:
  "settled w \<Longrightarrow> list_all action es \<Longrightarrow> \<exists>w'. session w es = Some w' \<and> settled w'"
proof (induction es arbitrary: w)
  case Nil
  then show ?case by simp
next
  case (Cons e es)
  then obtain w1 where "sequential w e = Some w1" "settled w1"
    using sequential_settled [of w e] by auto
  with Cons show ?case by simp
qed

text \<open>C8. Refinement of the remote store by the local collection: in a sequential
  session against a well-formed store, whatever the user does after the mount, every
  operation completes, and afterwards the local collection is the remote one, item by
  item and in the same order, its ids are unique, and nothing is under way.\<close>

theorem sequential_session_stays_in_sync:
  assumes "wf_server srv" and "list_all action es"
  shows "\<exists>w. session (start srv) (Mount # es) = Some w
    \<and> foods (ui (client w)) = map item (rows (remote w))
    \<and> unique_ids (foods (ui (client w))) \<and> quiet w \<and> wf_server (remote w)"
proof -
  from sequential_Mount [OF assms(1)] obtain w0
    where "sequential (start srv) Mount = Some w0" "settled w0" by blast
  moreover from session_settled [OF this(2) assms(2)] obtain w
    where "session w0 es = Some w" "settled w" by blast
  ultimately show ?thesis
    by (auto simp: settled_def in_sync_def unique_ids_items)
qed

theorem sequential_session_stays_in_sync_witness:
  "wf_server empty_server \<and> list_all action [Add pizza, Edit pizza, Update pasta, Delete (JNum 1)]
   \<and> (\<exists>w. session (start empty_server)
          [Mount, Add pizza, Edit pizza, Update pasta, Delete (JNum 1)] = Some w
        \<and> foods (ui (client w)) = map item (rows (remote w))
        \<and> unique_ids (foods (ui (client w))) \<and> quiet w \<and> wf_server (remote w))"
  using sequential_session_stays_in_sync
    [of empty_server "[Add pizza, Edit pizza, Update pasta, Delete (JNum 1)]"]
  by simp

section \<open>Adds in sequence\<close>

lemma upt_add_Suc: "[n..<Suc (n + l)] = n # [Suc n..<Suc (n + l)]"
  by (simp add: upt_conv_Cons del: upt_Suc)

lemma sequential_Add:
  assumes "settled w"
  shows "\<exists>w'. sequential w (Add c) = Some w' \<and> settled w'
    \<and> foods (ui (client w')) = foods (ui (client w))
        @ [item (next_id (remote w), (spread c)(''available'' \<mapsto> JBool True))]
    \<and> next_id (remote w') = Suc (next_id (remote w))"
proof -
  let ?b = "(spread c)(''available'' \<mapsto> JBool True)"
  have t: "call_of (ui (client w)) (Add c) = Some (handleAddFood (ui (client w)) c)"
    "sent (handleAddFood (ui (client w)) c) = Some (PostFood ?b)"
    by (simp_all add: sent_handlers)
  from assms have sync: "foods (ui (client w)) = map item (rows (remote w))"
    by (simp add: settled_def in_sync_def)
  from assms have "mounted (client w)" "quiet w" "wf_server (remote w)"
    by (simp_all add: settled_def)
  from sequential_call [OF this(1,2) t] obtain w'
    where w': "sequential w (Add c) = Some w'" "quiet w'" "mounted (client w')"
      "ui (client w') = run (ui (client w)) (handleAddFood (ui (client w)) c)
         (snd (post_food (remote w) ?b))"
      "remote w' = fst (post_food (remote w) ?b)" by auto
  from w'(4,5) sync_add [OF sync] have "in_sync w'" by (simp add: in_sync_def)
  moreover from w'(5) \<open>wf_server (remote w)\<close> have "wf_server (remote w')"
    by (simp add: wf_post_food)
  moreover from w'(5) \<open>in_sync w'\<close> sync
  have "foods (ui (client w')) = foods (ui (client w)) @ [item (next_id (remote w), ?b)]"
    "next_id (remote w') = Suc (next_id (remote w))"
    by (simp_all add: in_sync_def post_food_def)
  ultimately show ?thesis using w' by (simp add: settled_def)
qed

text \<open>C23. For every sequence of adds in a sequential session, each add appends exactly
  one item, which is the candidate with \<^verbatim>\<open>available: true\<close> under the id the store
  assigned: the ids of the new items are the consecutive values of the store's
  counter.\<close>

theorem successful_adds_append_assigned_ids:
  assumes "settled w"
  shows "\<exists>w'. session w (map Add cs) = Some w'
    \<and> foods (ui (client w')) = foods (ui (client w))
        @ map item (zip [next_id (remote w) ..< next_id (remote w) + length cs]
            (map (\<lambda>c. (spread c)(''available'' \<mapsto> JBool True)) cs))
    \<and> length (foods (ui (client w'))) = length (foods (ui (client w))) + length cs"
  using assms
proof (induction cs arbitrary: w)
  case Nil
  then show ?case by simp
next
  case (Cons c cs)
  from sequential_Add [OF Cons.prems, of c] obtain w1
    where w1: "sequential w (Add c) = Some w1" "settled w1"
      "foods (ui (client w1)) = foods (ui (client w))
        @ [item (next_id (remote w), (spread c)(''available'' \<mapsto> JBool True))]"
      "next_id (remote w1) = Suc (next_id (remote w))" by blast
  from Cons.IH [OF w1(2)] obtain w'
    where "session w1 (map Add cs) = Some w'"
      "foods (ui (client w')) = foods (ui (client w1))
        @ map item (zip [next_id (remote w1) ..< next_id (remote w1) + length cs]
            (map (\<lambda>c. (spread c)(''available'' \<mapsto> JBool True)) cs))" by blast
  with w1 show ?case by (simp add: upt_add_Suc fun_upd_def del: upt_Suc)
qed

theorem successful_adds_append_assigned_ids_witness:
  "\<exists>w. session (start empty_server) (Mount # map Add [pasta, pizza]) = Some w
     \<and> map id_of (foods (ui (client w))) = [JNum 1, JNum 2]"
proof -
  from sequential_Mount [of empty_server] obtain w0
    where w0: "sequential (start empty_server) Mount = Some w0" "settled w0"
      "remote w0 = empty_server" by auto
  then have "foods (ui (client w0)) = []"
    by (simp add: settled_def in_sync_def empty_server_def)
  with successful_adds_append_assigned_ids [OF w0(2), of "[pasta, pizza]"] w0 show ?thesis
    by (auto simp: empty_server_def)
qed

section \<open>Overlapping requests\<close>

lemma wexec_append:
  "wexec w (es @ es') = (case wexec w es of None \<Rightarrow> None | Some w' \<Rightarrow> wexec w' es')"
  by (induction es arbitrary: w) (simp_all split: option.splits)

lemma wexec_Mount:
  assumes "wf_server srv"
  shows "\<exists>w. wexec (start srv) [User Mount, DeliverFetch] = Some w \<and> settled w \<and> remote w = srv"
  using assms
  by (simp add: start_def boot_def settled_def quiet_def in_sync_def get_foods_def getFoods_def)

text \<open>C15. Two adds sent before either is answered: the store holds both new items,
  the local collection only the one whose answer came last, and nothing is under way
  that would repair it. The local collection lacks an item until the component is
  mounted again.\<close>

theorem overlapping_adds_leave_client_behind:
  assumes "settled w"
  shows "\<exists>w'. wexec w [User (Add c1), User (Add c2), Deliver 0, Deliver 0] = Some w'
    \<and> quiet w'
    \<and> map item (rows (remote w')) = foods (ui (client w))
        @ [item (next_id (remote w), (spread c1)(''available'' \<mapsto> JBool True)),
           item (Suc (next_id (remote w)), (spread c2)(''available'' \<mapsto> JBool True))]
    \<and> foods (ui (client w')) = foods (ui (client w))
        @ [item (Suc (next_id (remote w)), (spread c2)(''available'' \<mapsto> JBool True))]"
  using assms
  by (simp add: settled_def quiet_def in_sync_def handleAddFood_def post_food_def)

theorem overlapping_adds_leave_client_behind_witness:
  "\<exists>w. wexec (start empty_server)
          ([User Mount, DeliverFetch] @ [User (Add pizza), User (Add pasta), Deliver 0, Deliver 0])
        = Some w
     \<and> map id_of (map item (rows (remote w))) = [JNum 1, JNum 2]
     \<and> map id_of (foods (ui (client w))) = [JNum 2]"
proof -
  from wexec_Mount [OF wf_empty_server] obtain w0
    where w0: "wexec (start empty_server) [User Mount, DeliverFetch] = Some w0"
      "settled w0" "remote w0 = empty_server" by blast
  then have "foods (ui (client w0)) = []"
    by (simp add: settled_def in_sync_def empty_server_def)
  with overlapping_adds_leave_client_behind [OF w0(2), of pizza pasta] w0(3) obtain w
    where w: "wexec w0 [User (Add pizza), User (Add pasta), Deliver 0, Deliver 0] = Some w"
      "map id_of (map item (rows (remote w))) = [JNum 1, JNum 2]"
      "map id_of (foods (ui (client w))) = [JNum 2]"
    by (auto simp: empty_server_def)
  from w0(1) w(1) have "wexec (start empty_server)
      ([User Mount, DeliverFetch] @ [User (Add pizza), User (Add pasta), Deliver 0, Deliver 0])
      = Some w"
    by (simp only: wexec_append option.case)
  with w(2,3) show ?thesis by (intro exI [of _ w]) (simp only: simp_thms)
qed

end
