(* ===== verification/Spec2Isabelle.thy ===== *)
theory Spec2Isabelle
  imports Dashboard EventLoop Render Legacy Typed Sync
begin

text \<open>
  \<^bold>\<open>The program.\<close> The repository is one React function component,
  \<^verbatim>\<open>src/src/pages/Dashboard/index.tsx\<close>: a dashboard that lists food items and adds, edits
  and deletes them through a REST resource \<^verbatim>\<open>/foods\<close>. The component keeps four pieces
  of state (two modal flags, the collection \<^verbatim>\<open>foods\<close>, the editing slot), fetches the
  collection once when it mounts, and exposes six handlers to its children. Three of
  the handlers are \<^verbatim>\<open>async\<close>: they send a request, and the rest of their body runs when
  the response arrives. The second half of the file is the former class component,
  commented out.

  \<^bold>\<open>How it is modelled.\<close>
  \<^item> Theory \<open>Prelude\<close>: results that may throw as sum values (\<open>Raise\<close>, \<open>Return\<close>), the
    array methods \<open>array_map\<close> and \<open>array_filter\<close> with a callback that may throw, and
    lemmas on lists keyed by a projection.
  \<^item> Theory \<open>JsValue\<close>: the run-time values. TypeScript's types are erased and
    \<^verbatim>\<open>response.data\<close> is \<^verbatim>\<open>any\<close>, so an item is a \<open>jsval\<close>: a primitive (\<open>prim\<close>) or an
    object, a map from property names to primitives. \<open>truthy\<close> is the test of
    \<^verbatim>\<open>if (response.data)\<close>, \<open>get_id\<close> the access \<^verbatim>\<open>.id\<close> with its \<^verbatim>\<open>TypeError\<close> on \<^verbatim>\<open>null\<close>
    and \<^verbatim>\<open>undefined\<close>, \<open>strict_neq\<close> the operator \<^verbatim>\<open>!==\<close>, \<open>spread\<close> the object spread.
  \<^item> Theory \<open>Api\<close>: the four axios calls as the datatype \<open>request\<close>, a settled promise
    as \<open>response\<close> (\<open>Resolved\<close> with the data, \<open>Rejected\<close> with the error).
  \<^item> Theory \<open>Dashboard\<close>: the state as the record \<open>dashboard\<close> with the hooks' initial
    values \<open>initial\<close>; the setter calls, \<^verbatim>\<open>console.log\<close> and an escaping rejection as the
    datatype \<open>effect\<close>, applied by \<open>commit\<close>; one definition per handler, under the name
    it has in the source (\<open>getFoods\<close>, \<open>handleAddFood\<close>, \<open>handleUpdateFood\<close>,
    \<open>handleDeleteFood\<close>, \<open>toggleModal\<close>, \<open>toggleEditModal\<close>, \<open>handleEditFood\<close>). A
    handler takes the state \<open>s\<close> of the render that created it, because it is a closure
    of that render. An asynchronous handler returns a \<open>task\<close>: \<open>Await q k\<close> is the call
    suspended at its \<^verbatim>\<open>await\<close> with the request \<open>q\<close> sent and the continuation \<open>k\<close>, which
    still reads \<open>s\<close>; \<open>Done\<close> is a call that ended before sending. \<open>run s t r\<close> is the
    state after the task \<open>t\<close> has settled with \<open>r\<close> and no other event came in between.
  \<^item> Theory \<open>EventLoop\<close>: the component on the event loop. The record \<open>system\<close> holds
    the committed state, the pending calls, the requests sent and the two error
    streams; \<open>step\<close> is one event (mount, a user action, the settling of any pending
    request), \<open>exec\<close> a sequence of events, \<open>reachable\<close> the states reached from
    \<open>boot\<close>.
  \<^item> Theory \<open>Render\<close>: the JSX as the function \<open>render\<close> from a state to the props of
    the children.
  \<^item> Theory \<open>Legacy\<close>: the class component of the comments (lines 129 to 242), method
    by method under the names \<open>class_\<dots>\<close> and \<open>componentDidMount\<close>, on the types of the
    hook component; \<open>class_step\<close> and \<open>class_exec\<close> put it on the event loop.
  \<^item> Theory \<open>Typed\<close>: the interface \<^verbatim>\<open>FoodProps\<close> as a record, \<open>encode\<close> from the record
    to the run-time objects, and the list operations of the specification
    (\<open>add_item\<close>, \<open>update_item\<close>, \<open>delete_item\<close>).
  \<^item> Theory \<open>Server\<close>: a reference store written from the contract of the
    specification (the server is not in the sources): rows under ids assigned from a
    counter, \<open>get_foods\<close>, \<open>post_food\<close>, \<open>put_food\<close>, \<open>delete_food\<close>.
  \<^item> Theory \<open>Sync\<close>: the component run against the store. A \<open>world\<close> is the
    component, the store and the answers under way; \<open>wstep\<close> is a user event (whose
    request the store serves at once) or the delivery of an answer, in any order;
    \<open>sequential\<close> is a user event followed by the delivery of its answer.

  \<^bold>\<open>What is proved.\<close>
  \<^item> Functional behaviour of every handler on every branch, errors included
    (\<open>add_settles\<close>, \<open>update_settles\<close>, \<open>delete_settles\<close>, \<open>rejected_add_update_keep_state\<close>,
    \<open>rejected_delete_fetch_escape\<close>, \<open>toggles_flip_own_flag\<close>, \<open>edit_sets_slot_and_opens\<close>),
    and of the requests they send (\<open>add_request_forces_available\<close>,
    \<open>update_request_merges\<close>).
  \<^item> Refinement of the list specification: the callbacks of \<^verbatim>\<open>map\<close> and \<^verbatim>\<open>filter\<close>, which
    may throw, compute \<open>replaced\<close> and \<open>removed\<close> whenever they return
    (\<open>array_map_replace_food\<close>, \<open>array_filter_keep_food\<close>), and with unique ids an update
    overwrites exactly one position (\<open>update_replaces_exactly_one\<close>).
  \<^item> Invariants: readability and uniqueness of ids are kept by the handlers
    (\<open>handlers_keep_readable\<close>, \<open>handlers_keep_unique_ids\<close>, \<open>update_keeps_ids\<close>); over the
    reachable states, responses change nothing but the collection
    (\<open>responses_change_only_foods\<close>), the modal flags and the editing slot are a
    function of the user events (\<open>modals_and_slot_follow_user_events\<close>, against the
    specification \<open>ui_after\<close>), the fetch is sent once (\<open>fetch_sent_exactly_once\<close>),
    every item of the collection was delivered by a response
    (\<open>collection_holds_only_delivered_items\<close>), and the render does not throw as long
    as the fetch delivers readable items (\<open>render_never_throws\<close>, below). The last two
    go through the scheme \<open>kept\<close> of theory \<open>EventLoop\<close>, which carries a property of
    the collection across the writes of stale closures.
  \<^item> Interleavings: a call followed at once by its response is the atomic \<open>run\<close>
    (lemma \<open>exec_call_settle\<close>); overlapping calls lose updates because each
    continuation writes the collection of its own render
    (\<open>last_response_wins\<close> in general, \<open>overlapping_adds_lose_first\<close>,
    \<open>late_add_undoes_delete\<close>, \<open>toggle_twice_in_one_render\<close>).
  \<^item> Agreement with the remote store: in a sequential session the local collection
    is the remote one after every operation (\<open>sequential_session_stays_in_sync\<close>,
    \<open>successful_adds_append_assigned_ids\<close>); overlapping adds leave it one item short
    (\<open>overlapping_adds_leave_client_behind\<close>).
  \<^item> The class component: it equals the hook component but for the test on
    \<^verbatim>\<open>response.data\<close> (\<open>class_differs_only_in_add_guard\<close>), the hook component
    simulates it on every event sequence without a falsy response
    (\<open>class_behaves_as_hooks\<close>).
  \<^item> Types: the handlers as the list operations of the specification on encoded
    items (\<open>typed_handlers_refine_list_operations\<close>).
  \<^item> The render: what it shows and when it throws (\<open>render_shows_collection\<close>).

  \<^bold>\<open>Bounds of the model.\<close> Property values are primitives, so an id is never an
  object and \<^verbatim>\<open>!==\<close> never compares references. Numbers are rationals standing for the
  finite doubles of JSON; no arithmetic is done on them. The data of \<^verbatim>\<open>GET /foods\<close> is a
  list: a payload that is not an array (after which \<^verbatim>\<open>foods.map\<close> would throw in the
  render) is outside the model. There is no loop in the program and no fuel in the
  model: every definition is a total function, recursive only over the list of items.

  The event loop of theory \<open>EventLoop\<close> is not code of the file: it is the run time the
  specification describes (one event at a time, a call suspended at its \<^verbatim>\<open>await\<close>,
  responses in any order). It is mounted once and never unmounted, and a user event
  always runs the handler of the latest render.

  The path of a request is kept as the value interpolated into it, so the conversion
  of an id to the text of the path is the identity: the targets \<^verbatim>\<open>1\<close> and \<^verbatim>\<open>"1"\<close> differ
  in the model although their paths coincide. The reference store compares the target
  with its numeric ids and answers 404 to a target that is a string, where a store
  addressed by path would serve it; the agreement of theory \<open>Sync\<close> covers such targets
  only under this reading. The store serves a request at the moment it is sent; only
  the answers are delayed and reordered. Ids of the store are natural numbers.

  The class component of theory \<open>Legacy\<close> is text in comments: it never runs. It is
  modelled for the comparison with the hook component only.

  \<^bold>\<open>Not modelled.\<close> The child components and the styles, which are not in the
  sources; the configuration of the HTTP client; the conversion of an id to the text of
  the path. The server is modelled from the specification only, as one store that meets
  its contract.
\<close>

section \<open>The render over the reachable states\<close>

text \<open>An event is benign when it is not a fetch response that delivers an unreadable
  item: the contract of \<^verbatim>\<open>GET /foods\<close> is a sequence of items.\<close>

fun benign :: "event \<Rightarrow> bool" where
  "benign (SettleFetch (Resolved ds)) = readable ds"
| "benign e = True"

text \<open>Readability is kept in the sense of \<open>kept\<close>: it holds of the committed
  collection and of the collection every pending call captured.\<close>

lemma born_readable_settle:
  assumes "born readable t" and "readable (foods s')"
  shows "readable (foods (commits (settle t r) s'))"
proof -
  from assms(1) obtain s e where s: "readable (foods s)" and e: "call_of s e = Some t"
    by (auto simp: born_def)
  from e show ?thesis
    by (cases e) (use stale_settle_readable [OF s assms(2)] in auto)
qed

lemma exec_render_safe:
  "kept readable \<sigma> \<Longrightarrow> exec \<sigma> es = Some \<sigma>' \<Longrightarrow> list_all benign es \<Longrightarrow> kept readable \<sigma>'"
proof (induction es arbitrary: \<sigma>)
  case Nil
  then show ?case by simp
next
  case (Cons e es)
  then obtain \<sigma>1 where 1: "step \<sigma> e = Some \<sigma>1" and 2: "exec \<sigma>1 es = Some \<sigma>'"
    by (auto split: option.splits)
  from Cons.prems(3) have "kept readable \<sigma>1"
    by (intro step_kept [OF Cons.prems(1) 1]) (auto simp: born_readable_settle)
  with 2 Cons.prems(3) show ?case by (auto intro: Cons.IH)
qed

text \<open>C9. As long as the initial fetch does not deliver an item that is \<^verbatim>\<open>null\<close> or
  \<^verbatim>\<open>undefined\<close>, the render succeeds in every state the component reaches, whatever
  the user does, whatever the other responses are and in whatever order they arrive:
  no handler, current or stale, ever writes an unreadable item into the collection.\<close>

theorem render_never_throws:
  assumes "exec boot es = Some \<sigma>" and "list_all benign es"
  shows "\<exists>v. render (ui \<sigma>) = Return v \<and> map card_food (cards v) = foods (ui \<sigma>)"
proof -
  have "kept readable boot" by (simp add: kept_boot)
  with assms have "kept readable \<sigma>" by (auto intro: exec_render_safe)
  then have "readable (foods (ui \<sigma>))" by (simp add: kept_def)
  from render_readable [OF this] show ?thesis by blast
qed

theorem render_never_throws_witness:
  "\<exists>\<sigma> v. exec boot [Mount, Add pizza, SettleFetch (Resolved [pasta]), Settle 0 (Resolved (Prim JNull))]
       = Some \<sigma>
     \<and> render (ui \<sigma>) = Return v \<and> map card_food (cards v) = [pasta]"
proof -
  let ?es = "[Mount, Add pizza, SettleFetch (Resolved [pasta]), Settle 0 (Resolved (Prim JNull))]"
  obtain \<sigma> where \<sigma>: "exec boot ?es = Some \<sigma>" and f: "foods (ui \<sigma>) = [pasta]"
    by (simp add: boot_def handleAddFood_def getFoods_def)
  have "list_all benign ?es" by simp
  from render_never_throws [OF \<sigma> this] f \<sigma> show ?thesis by auto
qed

end
